theory Spec2Isabelle
  imports Complex_Main
begin

section \<open>Strings as the viewer uses them\<close>

text \<open>
  A string is a list of UTF-16 code units below 256, one \<open>char\<close> each; code units from
  256 up are outside the model's strings. \<open>String.prototype.trim\<close> and \<open>parseInt\<close> skip
  the white space and line terminator characters of ECMAScript; those below 256 are tab,
  line feed, vertical tab, form feed, carriage return, space and the no-break space
  U+00A0 (the others, U+1680, U+2000 to U+200A, U+2028, U+2029, U+202F, U+205F, U+3000
  and U+FEFF, are code units from 256 up). \<open>split('\n')\<close> always returns at least one
  piece.
\<close>

definition is_whitespace :: "char \<Rightarrow> bool" where
  "is_whitespace c =
     (c = CHR 0x09 \<or> c = CHR 0x0A \<or> c = CHR 0x0B \<or> c = CHR 0x0C \<or> c = CHR 0x0D \<or>
      c = CHR 0x20 \<or> c = CHR 0xA0)"

definition trim :: "string \<Rightarrow> string" where
  "trim s = rev (dropWhile is_whitespace (rev (dropWhile is_whitespace s)))"

fun split_on :: "char \<Rightarrow> string \<Rightarrow> string list" where
  "split_on d [] = [[]]"
| "split_on d (c # cs) =
     (if c = d then [] # split_on d cs
      else (case split_on d cs of
              [] \<Rightarrow> [[c]]
            | l # ls \<Rightarrow> (c # l) # ls))"

definition split_lines :: "string \<Rightarrow> string list" where
  "split_lines s = split_on (CHR 0x0A) s"

text \<open>A template literal prints a non-negative integer in decimal.\<close>

definition digit_char :: "nat \<Rightarrow> char" where
  "digit_char d = ''0123456789'' ! d"

function decimal :: "nat \<Rightarrow> string" where
  "decimal n = (if n < 10 then [digit_char n] else decimal (n div 10) @ [digit_char (n mod 10)])"
  by pat_completeness auto
termination
  by (relation "measure (\<lambda>n. n)") auto

declare decimal.simps [simp del]

section \<open>Audio/video synchronizer\<close>

text \<open>
  \<open>handleVideoTimeUpdate\<close> of WorksheetViewer.tsx and of AutoModeContentDisplay.tsx (the
  two bodies are the same text): three assignments to \<open>video.currentTime\<close> in sequence,
  each reading the value the previous one left. Media time is a real number here; the
  literal 9.9 is the fraction 99/10.
\<close>

definition handleVideoTimeUpdate :: "bool \<Rightarrow> real \<Rightarrow> real" where
  "handleVideoTimeUpdate isAudioPlaying t =
     (let t1 = (if t \<ge> 20 then 10 else t);
          t2 = (if t1 \<ge> 99 / 10 \<and> \<not> isAudioPlaying then 0 else t1);
          t3 = (if isAudioPlaying \<and> t2 < 10 then 10 else t2)
      in t3)"

section \<open>Worksheet metadata and the content normalizer\<close>

text \<open>
  The fields of \<open>RegionData\<close>, \<open>GuidanceItem\<close> and \<open>AutoModePageData\<close> that playback reads.
  A region's raw description is an array of strings or one string (currentPageContent
  handles both; anything else gives no paragraphs). The metadata's \<open>mode\<close> tag and its \<open>data\<close> array are one datatype: the
  constructor is the mode.
\<close>

datatype mode = Regions | Auto

datatype raw_description = DescArray "string list" | DescString string | DescOther

record raw_region =
  raw_id :: string
  raw_page :: nat
  raw_name :: string
  raw_description :: raw_description

record region =
  region_id :: string
  region_page :: nat
  region_name :: string
  region_description :: "string list"

record guidance_item =
  item_title :: string
  item_description :: string

text \<open>A guidance item as currentPageContent hands it on: with \<open>id\<close> and \<open>index\<close> added.\<close>

record guidance =
  guidance_title :: string
  guidance_description :: string
  guidance_id :: string
  guidance_index :: nat

record auto_page =
  page_number :: nat
  page_description :: string
  page_guidance :: "guidance_item list"

datatype worksheet_meta = RegionsMeta "raw_region list" | AutoMeta "auto_page list"

fun mode_of :: "worksheet_meta \<Rightarrow> mode" where
  "mode_of (RegionsMeta rs) = Regions"
| "mode_of (AutoMeta ps) = Auto"

datatype content = Region region | Guidance guidance

fun content_id :: "content \<Rightarrow> string" where
  "content_id (Region r) = region_id r"
| "content_id (Guidance g) = guidance_id g"

definition non_blank_lines :: "string \<Rightarrow> string list" where
  "non_blank_lines s = filter (\<lambda>paragraph. trim paragraph \<noteq> []) (split_lines s)"

fun processedDescription :: "raw_description \<Rightarrow> string list" where
  "processedDescription (DescArray items) = concat (map non_blank_lines items)"
| "processedDescription (DescString s) = non_blank_lines s"
| "processedDescription DescOther = []"

definition process_region :: "raw_region \<Rightarrow> content" where
  "process_region r =
     Region \<lparr>region_id = raw_id r, region_page = raw_page r, region_name = raw_name r,
             region_description = processedDescription (raw_description r)\<rparr>"

definition index_guidance :: "nat \<times> guidance_item \<Rightarrow> content" where
  "index_guidance = (\<lambda>(index, g).
     Guidance \<lparr>guidance_title = item_title g, guidance_description = item_description g,
               guidance_id = ''guidance_'' @ decimal index, guidance_index = index\<rparr>)"

fun currentPageContent :: "worksheet_meta \<Rightarrow> nat \<Rightarrow> content list" where
  "currentPageContent (RegionsMeta rs) pageIndex =
     map process_region (filter (\<lambda>r. raw_page r = pageIndex) rs)"
| "currentPageContent (AutoMeta pages) pageIndex =
     (case find (\<lambda>page. page_number page = pageIndex) pages of
        None \<Rightarrow> []
      | Some pageData \<Rightarrow> map index_guidance (enumerate 0 (page_guidance pageData)))"

text \<open>WorksheetViewer.tsx: the clickability test and the paragraphs of a guidance item.\<close>

definition isNonClickableGuidance :: "guidance \<Rightarrow> bool" where
  "isNonClickableGuidance g =
     (guidance_description g = [] \<or> trim (guidance_description g) = [] \<or>
      trim (guidance_description g) = ''<br>'')"

definition processGuidanceDescription :: "string \<Rightarrow> string list" where
  "processGuidanceDescription description =
     (if description = [] \<or> trim description = [] \<or> trim description = ''<br>'' then []
      else filter (\<lambda>paragraph. trim paragraph \<noteq> []) (split_lines description))"

text \<open>
  The description a handler reads: \<open>(content as RegionData).description || []\<close> in regions
  mode, \<open>processGuidanceDescription((content as GuidanceItem).description)\<close> in auto mode.
  The casts are unchecked; currentPageContent yields regions in regions mode and guidance
  items in auto mode only, and the other two combinations get no paragraphs here.
\<close>

fun contentDescription :: "mode \<Rightarrow> content \<Rightarrow> string list" where
  "contentDescription Regions (Region r) = region_description r"
| "contentDescription Auto (Guidance g) = processGuidanceDescription (guidance_description g)"
| "contentDescription Regions (Guidance g) = []"
| "contentDescription Auto (Region r) = []"

text \<open>AutoModeViewer.tsx: its own clickability test and paragraph split.\<close>

definition isNonClickable :: "guidance_item \<Rightarrow> bool" where
  "isNonClickable g =
     (let description = trim (item_description g)
      in description = [] \<or> description = ''<br>'' \<or> description = ''<br/>'')"

definition splitIntoParagraphs :: "string \<Rightarrow> string list" where
  "splitIntoParagraphs description =
     filter (\<lambda>p. p \<noteq> [] \<and> p \<noteq> ''<br>'' \<and> p \<noteq> ''<br/>'') (map trim (split_lines description))"

section \<open>WorksheetViewer: playback state and handlers\<close>

record stored_content_data =
  stored_currentStepIndex :: nat

text \<open>
  The props the handlers read. \<open>initialActiveContent\<close> is kept as the \<open>id\<close> it carries, the
  only field of it the viewer reads; \<open>None\<close> is null or undefined.
\<close>

record props =
  worksheetId :: string
  pageIndex :: nat
  worksheetMeta :: worksheet_meta
  initialActiveContent :: "string option"
  initialCurrentStepIndex :: nat
  allContentState :: "string \<rightharpoonup> stored_content_data"

text \<open>The component's state hooks, and the two refs that remember the previous render.\<close>

record viewer_state =
  activeContent :: "content option"
  currentStepIndex :: nat
  isTextMode :: bool
  isGuidanceTextMode :: bool
  displayedMessages :: "string list"
  isAudioPlaying :: bool
  audioAvailable :: bool
  audioCheckPerformed :: bool
  hasRestoredInitialState :: bool
  prevWorksheetId :: string
  prevPageIndex :: nat

definition initial_state :: "string \<Rightarrow> nat \<Rightarrow> viewer_state" where
  "initial_state wid page =
     \<lparr>activeContent = None, currentStepIndex = 0, isTextMode = False,
      isGuidanceTextMode = False, displayedMessages = [], isAudioPlaying = False,
      audioAvailable = True, audioCheckPerformed = False, hasRestoredInitialState = False,
      prevWorksheetId = wid, prevPageIndex = page\<rparr>"

text \<open>
  What a handler does to the media elements and to its parent, in the order of the calls.
  The audio element is always rendered; the video element is rendered, and so
  \<open>videoRef.current\<close> is set, exactly when the text display is rendered with audio
  available.
\<close>

datatype effect =
    OnTextModeChange bool
  | VideoRestartAndPlay
  | VideoPause
  | VideoRewind
  | AudioPause
  | AudioRewind
  | AudioPlay string
  | AudioPlayAfterDelay string

definition videoRendered :: "viewer_state \<Rightarrow> bool" where
  "videoRendered s =
     (activeContent s \<noteq> None \<and> (isTextMode s \<or> isGuidanceTextMode s) \<and> audioAvailable s)"

text \<open>playAudioSegment: the \<open>src\<close> it gives the audio element before calling \<open>play()\<close>.\<close>

definition playAudioSegment :: "string \<Rightarrow> string \<Rightarrow> nat \<Rightarrow> string" where
  "playAudioSegment wid regionName stepIndex =
     ''/audio/'' @ wid @ ''/'' @ regionName @ ''_'' @ decimal (stepIndex + 1) @ ''.mp3''"

text \<open>
  The first argument the four call sites give playAudioSegment: the region's name in
  regions mode, \<open>`${pageIndex}_${content.index}`\<close> in auto mode. A field the content
  lacks prints as \<open>undefined\<close>.
\<close>

fun segmentName :: "mode \<Rightarrow> nat \<Rightarrow> content \<Rightarrow> string" where
  "segmentName Regions page (Region r) = region_name r"
| "segmentName Regions page (Guidance g) = ''undefined''"
| "segmentName Auto page (Guidance g) = decimal page @ ''_'' @ decimal (guidance_index g)"
| "segmentName Auto page (Region r) = decimal page @ ''_undefined''"

definition audioSrc :: "props \<Rightarrow> content \<Rightarrow> nat \<Rightarrow> string" where
  "audioSrc p c stepIndex =
     playAudioSegment (worksheetId p)
       (segmentName (mode_of (worksheetMeta p)) (pageIndex p) c) stepIndex"

definition savedStepIndex :: "props \<Rightarrow> content \<Rightarrow> nat" where
  "savedStepIndex p c =
     (case allContentState p (content_id c) of
        None \<Rightarrow> 0
      | Some savedContentState \<Rightarrow> stored_currentStepIndex savedContentState)"

definition handleContentClick :: "props \<Rightarrow> content \<Rightarrow> viewer_state \<Rightarrow> viewer_state \<times> effect list" where
  "handleContentClick p c s =
     (let description = contentDescription (mode_of (worksheetMeta p)) c in
      if description = [] then (s, [])
      else
        let startingStepIndex = savedStepIndex p c;
            messagesToDisplay = take (startingStepIndex + 1) description
        in (s\<lparr>currentStepIndex := startingStepIndex,
               displayedMessages := messagesToDisplay,
               activeContent := Some c,
               isTextMode := True,
               isGuidanceTextMode := (mode_of (worksheetMeta p) = Auto \<or> isGuidanceTextMode s)\<rparr>,
            (if videoRendered s \<and> audioAvailable s then [VideoRestartAndPlay] else []) @
            (if audioAvailable s then [AudioPlayAfterDelay (audioSrc p c startingStepIndex)] else []) @
            [OnTextModeChange True]))"

definition handleRegionClick :: "props \<Rightarrow> region \<Rightarrow> viewer_state \<Rightarrow> viewer_state \<times> effect list" where
  "handleRegionClick p r s = handleContentClick p (Region r) s"

definition handleGuidanceClick :: "props \<Rightarrow> guidance \<Rightarrow> viewer_state \<Rightarrow> viewer_state \<times> effect list" where
  "handleGuidanceClick p g s =
     (if isNonClickableGuidance g then (s, []) else handleContentClick p (Guidance g) s)"

definition handleNextStep :: "props \<Rightarrow> viewer_state \<Rightarrow> viewer_state \<times> effect list" where
  "handleNextStep p s =
     (case activeContent s of
        None \<Rightarrow> (s, [])
      | Some c \<Rightarrow>
          let description = contentDescription (mode_of (worksheetMeta p)) c in
          if currentStepIndex s + 1 < length description then
            let nextStepIndex = currentStepIndex s + 1
            in (s\<lparr>currentStepIndex := nextStepIndex,
                   displayedMessages := displayedMessages s @ [description ! nextStepIndex]\<rparr>,
                AudioPause #
                (if audioAvailable s then [AudioPlayAfterDelay (audioSrc p c nextStepIndex)] else []))
          else (s, []))"

definition handleMessageClick :: "props \<Rightarrow> nat \<Rightarrow> viewer_state \<Rightarrow> viewer_state \<times> effect list" where
  "handleMessageClick p index s =
     (case activeContent s of
        None \<Rightarrow> (s, [])
      | Some c \<Rightarrow>
          if \<not> audioAvailable s then (s, [])
          else (s, [AudioPause, AudioPlay (audioSrc p c index)]))"

definition handleBackButtonClick :: "props \<Rightarrow> viewer_state \<Rightarrow> viewer_state \<times> effect list" where
  "handleBackButtonClick p s =
     (if mode_of (worksheetMeta p) = Auto \<and> isGuidanceTextMode s then
        (s\<lparr>isGuidanceTextMode := False, displayedMessages := [], isAudioPlaying := False\<rparr>,
         [AudioPause, AudioRewind] @ (if videoRendered s then [VideoPause] else []))
      else
        (s\<lparr>isTextMode := False, isGuidanceTextMode := False, activeContent := None,
           currentStepIndex := 0, displayedMessages := [], isAudioPlaying := False\<rparr>,
         [OnTextModeChange False, AudioPause, AudioRewind] @
         (if videoRendered s then [VideoPause] else [])))"

section \<open>WorksheetViewer: the effects that run after a render\<close>

text \<open>
  The reset effect: compares the props with the two refs and resets only on a change.
\<close>

definition resetOnChange :: "props \<Rightarrow> viewer_state \<Rightarrow> viewer_state \<times> effect list" where
  "resetOnChange p s =
     (let worksheetChanged = (prevWorksheetId s \<noteq> worksheetId p);
          pageChanged = (prevPageIndex s \<noteq> pageIndex p) in
      if worksheetChanged \<or> pageChanged then
        (s\<lparr>activeContent := None, currentStepIndex := 0, displayedMessages := [],
           isTextMode := False, isGuidanceTextMode := False, isAudioPlaying := False,
           audioCheckPerformed := False, hasRestoredInitialState := False,
           prevWorksheetId := worksheetId p, prevPageIndex := pageIndex p\<rparr>,
         [OnTextModeChange False, AudioPause, AudioRewind] @
         (if videoRendered s then [VideoPause, VideoRewind] else []))
      else (s, []))"

text \<open>The restoration effect, guarded by the \<open>hasRestoredInitialState\<close> latch.\<close>

definition restoreInitialState :: "props \<Rightarrow> viewer_state \<Rightarrow> viewer_state \<times> effect list" where
  "restoreInitialState p s =
     (case initialActiveContent p of
        None \<Rightarrow> (s, [])
      | Some contentId \<Rightarrow>
          if currentPageContent (worksheetMeta p) (pageIndex p) \<noteq> [] \<and>
             \<not> hasRestoredInitialState s then
            (case find (\<lambda>c. content_id c = contentId)
                    (currentPageContent (worksheetMeta p) (pageIndex p)) of
               None \<Rightarrow> (s, [])
             | Some matchingContent \<Rightarrow>
                 let s1 = s\<lparr>activeContent := Some matchingContent,
                             currentStepIndex := initialCurrentStepIndex p,
                             isTextMode := True,
                             isGuidanceTextMode :=
                               (mode_of (worksheetMeta p) = Auto \<or> isGuidanceTextMode s)\<rparr>;
                     description = contentDescription (mode_of (worksheetMeta p)) matchingContent
                 in if description \<noteq> [] then
                      (s1\<lparr>displayedMessages := take (initialCurrentStepIndex p + 1) description,
                          hasRestoredInitialState := True\<rparr>,
                       [OnTextModeChange True] @
                       (if videoRendered s \<and> audioAvailable s then [VideoRestartAndPlay] else []) @
                       (if audioAvailable s
                        then [AudioPlayAfterDelay
                                (audioSrc p matchingContent (initialCurrentStepIndex p))]
                        else []))
                    else (s1\<lparr>hasRestoredInitialState := True\<rparr>, []))
          else (s, []))"

section \<open>Media availability probe\<close>

text \<open>
  The availability effect either settles at once (no name to probe) or starts a probe of
  one path. \<open>checkCompleted\<close> is the local variable of the effect's closure; the three
  callbacks (canplaythrough, error, the 3000 ms timer) all go through completeCheck. The
  same text stands in AutoModeContentDisplay.tsx.
\<close>

definition audioAvailabilityCheck :: "props \<Rightarrow> viewer_state \<Rightarrow> viewer_state \<times> string option" where
  "audioAvailabilityCheck p s =
     (if \<not> audioCheckPerformed s \<and> currentPageContent (worksheetMeta p) (pageIndex p) \<noteq> [] then
        (case mode_of (worksheetMeta p) of
           Regions \<Rightarrow>
             (case hd (currentPageContent (worksheetMeta p) (pageIndex p)) of
                Region firstRegion \<Rightarrow>
                  if region_name firstRegion = []
                  then (s\<lparr>audioAvailable := False, audioCheckPerformed := True\<rparr>, None)
                  else (s, Some (''/audio/'' @ worksheetId p @ ''/'' @ region_name firstRegion @ ''_1.mp3''))
              | Guidance g \<Rightarrow> (s\<lparr>audioAvailable := False, audioCheckPerformed := True\<rparr>, None))
         | Auto \<Rightarrow> (s, Some (''/audio/'' @ worksheetId p @ ''/'' @ decimal (pageIndex p) @ ''_0_1.mp3'')))
      else (s, None))"

datatype probe_signal = CanPlayThrough | ErrorEvent | TimeoutFired

definition completeCheck :: "bool \<Rightarrow> bool \<times> viewer_state \<Rightarrow> bool \<times> viewer_state" where
  "completeCheck available = (\<lambda>(checkCompleted, s).
     if checkCompleted then (checkCompleted, s)
     else (True, s\<lparr>audioAvailable := available, audioCheckPerformed := True\<rparr>))"

fun probeCallback :: "probe_signal \<Rightarrow> bool \<times> viewer_state \<Rightarrow> bool \<times> viewer_state" where
  "probeCallback CanPlayThrough = completeCheck True"
| "probeCallback ErrorEvent = completeCheck False"
| "probeCallback TimeoutFired = completeCheck False"

text \<open>A probe: a fresh closure, then the callbacks in the order the browser runs them.\<close>

definition runProbe :: "probe_signal list \<Rightarrow> viewer_state \<Rightarrow> bool \<times> viewer_state" where
  "runProbe signals s = foldl (\<lambda>st signal. probeCallback signal st) (False, s) signals"

text \<open>
  The timer is set to 3000 ms. Given the media events with their arrival times (ms after
  the probe starts, in order), the callbacks run in this order: the events before 3000,
  the timer, the events from 3000 on.
\<close>

definition probeTimeout :: nat where
  "probeTimeout = 3000"

definition dispatchOrder :: "(nat \<times> probe_signal) list \<Rightarrow> probe_signal list" where
  "dispatchOrder events =
     map snd (takeWhile (\<lambda>(t, e). t < probeTimeout) events) @ [TimeoutFired] @
     map snd (dropWhile (\<lambda>(t, e). t < probeTimeout) events)"

section \<open>WorksheetViewer as a transition system\<close>

text \<open>
  An event is what happens, with the props of the render it happens in. \<open>Rendered\<close> is a
  commit: the reset effect, the restoration effect and the availability effect, in the
  order the component declares them. \<open>ProbeSettled\<close> is the first callback of a probe.
\<close>

datatype event =
    ClickRegion region
  | ClickGuidance guidance
  | NextStep
  | BackButton
  | MessageClick nat
  | Rendered
  | ProbeSettled bool

definition commitEffects :: "props \<Rightarrow> viewer_state \<Rightarrow> viewer_state \<times> effect list" where
  "commitEffects p s =
     (let (s1, e1) = resetOnChange p s;
          (s2, e2) = restoreInitialState p s1;
          (s3, probe) = audioAvailabilityCheck p s2
      in (s3, e1 @ e2))"

fun viewerStep :: "props \<Rightarrow> event \<Rightarrow> viewer_state \<Rightarrow> viewer_state \<times> effect list" where
  "viewerStep p (ClickRegion r) s = handleRegionClick p r s"
| "viewerStep p (ClickGuidance g) s = handleGuidanceClick p g s"
| "viewerStep p NextStep s = handleNextStep p s"
| "viewerStep p BackButton s = handleBackButtonClick p s"
| "viewerStep p (MessageClick index) s = handleMessageClick p index s"
| "viewerStep p Rendered s = commitEffects p s"
| "viewerStep p (ProbeSettled available) s = (snd (completeCheck available (False, s)), [])"

fun run :: "(props \<times> event) list \<Rightarrow> viewer_state \<Rightarrow> viewer_state" where
  "run [] s = s"
| "run ((p, e) # rest) s = run rest (fst (viewerStep p e s))"

text \<open>Everything a run does to the media elements and the parent, in order.\<close>

fun runEffects :: "(props \<times> event) list \<Rightarrow> viewer_state \<Rightarrow> effect list" where
  "runEffects [] s = []"
| "runEffects ((p, e) # rest) s =
     snd (viewerStep p e s) @ runEffects rest (fst (viewerStep p e s))"

fun startsMedia :: "effect \<Rightarrow> bool" where
  "startsMedia VideoRestartAndPlay = True"
| "startsMedia (AudioPlay src) = True"
| "startsMedia (AudioPlayAfterDelay src) = True"
| "startsMedia (OnTextModeChange b) = False"
| "startsMedia VideoPause = False"
| "startsMedia VideoRewind = False"
| "startsMedia AudioPause = False"
| "startsMedia AudioRewind = False"

fun isProbeEvent :: "event \<Rightarrow> bool" where
  "isProbeEvent (ProbeSettled available) = True"
| "isProbeEvent (ClickRegion r) = False"
| "isProbeEvent (ClickGuidance g) = False"
| "isProbeEvent NextStep = False"
| "isProbeEvent BackButton = False"
| "isProbeEvent (MessageClick index) = False"
| "isProbeEvent Rendered = False"

section \<open>WorksheetPage: session persistence\<close>

text \<open>
  \<open>parseInt\<close> with no radix: leading white space, an optional sign, a \<open>0x\<close> prefix for
  base 16, then the longest run of digits; \<open>None\<close> is NaN.
\<close>

definition digit_of :: "nat \<Rightarrow> char \<Rightarrow> nat option" where
  "digit_of radix c =
     (let k = of_char c :: nat;
          v = (if 48 \<le> k \<and> k \<le> 57 then Some (k - 48)
               else if 97 \<le> k \<and> k \<le> 122 then Some (k - 87)
               else if 65 \<le> k \<and> k \<le> 90 then Some (k - 55)
               else None)
      in case v of None \<Rightarrow> None | Some d \<Rightarrow> if d < radix then Some d else None)"

definition parse_digits :: "nat \<Rightarrow> string \<Rightarrow> nat option" where
  "parse_digits radix s =
     (let ds = takeWhile (\<lambda>c. digit_of radix c \<noteq> None) s
      in if ds = [] then None
         else Some (foldl (\<lambda>acc c. acc * radix + the (digit_of radix c)) 0 ds))"

definition parseInt :: "string \<Rightarrow> int option" where
  "parseInt s =
     (let t = dropWhile is_whitespace s;
          negative = (take 1 t = ''-'');
          u = (if take 1 t = ''-'' \<or> take 1 t = ''+'' then drop 1 t else t);
          hex = (take 2 u = ''0x'' \<or> take 2 u = ''0X'');
          magnitude = (if hex then parse_digits 16 (drop 2 u) else parse_digits 10 u)
      in case magnitude of
           None \<Rightarrow> None
         | Some k \<Rightarrow> Some (if negative then - int k else int k))"

text \<open>
  Session storage holds text; an item is either text \<open>JSON.parse\<close> rejects or a
  \<open>SessionPageData\<close> record. \<open>setItem\<close> throws when the quota is exceeded.
\<close>

record session_page_data =
  lastActiveContentId :: "string option"
  content_of :: "string \<rightharpoonup> stored_content_data"

datatype stored_item = Unparseable | Parsed session_page_data

record session_storage =
  items :: "string \<rightharpoonup> stored_item"
  quota_exceeded :: bool

definition setItem :: "session_storage \<Rightarrow> string \<Rightarrow> stored_item \<Rightarrow> session_storage option" where
  "setItem st k v = (if quota_exceeded st then None else Some (st\<lparr>items := (items st)(k \<mapsto> v)\<rparr>))"

definition sessionKey :: "string \<Rightarrow> string \<Rightarrow> string" where
  "sessionKey wid n = ''worksheet_page_state_'' @ wid @ ''_'' @ n"

text \<open>
  The resume handoff (\<open>location.state\<close>) and the page's state hooks. As in the viewer's
  props, an initial content is kept as its \<open>id\<close>.
\<close>

record location_state =
  loc_initialActiveContent :: "string option"
  loc_initialCurrentStepIndex :: "nat option"

record page_state =
  pg_currentActiveContent :: "content option"
  pg_currentStepIndex :: nat
  pg_allContentState :: "string \<rightharpoonup> stored_content_data"
  pg_initialActiveContent :: "string option"
  pg_initialCurrentStepIndex :: nat

definition handoffContent :: "location_state option \<Rightarrow> string option" where
  "handoffContent locationState =
     (case locationState of None \<Rightarrow> None | Some l \<Rightarrow> loc_initialActiveContent l)"

definition handoffStepIndex :: "location_state option \<Rightarrow> nat" where
  "handoffStepIndex locationState =
     (case locationState of
        None \<Rightarrow> 0
      | Some l \<Rightarrow> (case loc_initialCurrentStepIndex l of None \<Rightarrow> 0 | Some k \<Rightarrow> k))"

definition useLocationState :: "location_state option \<Rightarrow> page_state \<Rightarrow> page_state" where
  "useLocationState locationState pg =
     (case handoffContent locationState of
        None \<Rightarrow> pg
      | Some c \<Rightarrow> pg\<lparr>pg_initialActiveContent := Some c,
                     pg_initialCurrentStepIndex := handoffStepIndex locationState\<rparr>)"

text \<open>
  Whether the stored last active id names a unit of the metadata: a region with that id
  anywhere in the data, or, in auto mode, the guidance item whose position is the number
  after the first underscore, on the page numbered \<open>parseInt(n)\<close>.
\<close>

fun lastActiveContentFound :: "worksheet_meta \<Rightarrow> string \<Rightarrow> string \<Rightarrow> bool" where
  "lastActiveContentFound (RegionsMeta rs) n lastId =
     (find (\<lambda>r. raw_id r = lastId) rs \<noteq> None)"
| "lastActiveContentFound (AutoMeta pages) n lastId =
     (case find (\<lambda>page. parseInt n = Some (int (page_number page))) pages of
        None \<Rightarrow> False
      | Some pageData \<Rightarrow>
          (case split_on (CHR ''_'') lastId of
             a # b # rest \<Rightarrow>
               (case parseInt b of
                  None \<Rightarrow> False
                | Some guidanceIndex \<Rightarrow>
                    0 \<le> guidanceIndex \<and> nat guidanceIndex < length (page_guidance pageData))
           | _ \<Rightarrow> False))"

definition loadSessionState ::
  "string \<Rightarrow> string \<Rightarrow> location_state option \<Rightarrow> worksheet_meta option \<Rightarrow>
   session_storage \<Rightarrow> page_state \<Rightarrow> page_state" where
  "loadSessionState wid n locationState worksheetData st pg =
     (if wid = [] \<or> n = [] then pg
      else
        (case items st (sessionKey wid n) of
           None \<Rightarrow> useLocationState locationState (pg\<lparr>pg_allContentState := Map.empty\<rparr>)
         | Some Unparseable \<Rightarrow>
             useLocationState locationState (pg\<lparr>pg_allContentState := Map.empty\<rparr>)
         | Some (Parsed parsedState) \<Rightarrow>
             let pg1 = pg\<lparr>pg_allContentState := content_of parsedState\<rparr> in
             if handoffContent locationState \<noteq> None then useLocationState locationState pg1
             else
               (case (lastActiveContentId parsedState, worksheetData) of
                  (Some lastId, Some meta) \<Rightarrow>
                    if lastId \<noteq> [] \<and> lastActiveContentFound meta n lastId then
                      pg1\<lparr>pg_initialActiveContent := Some lastId,
                          pg_initialCurrentStepIndex :=
                            (case content_of parsedState lastId of
                               None \<Rightarrow> 0
                             | Some contentState \<Rightarrow> stored_currentStepIndex contentState)\<rparr>
                    else pg1
                | _ \<Rightarrow> pg1)))"

text \<open>
  handleContentStateChange, the viewer's \<open>onContentStateChange\<close>: the id is
  \<open>content.id || `guidance_${content.index}`\<close>.
\<close>

fun stateContentId :: "content \<Rightarrow> string" where
  "stateContentId (Region r) = (if region_id r \<noteq> [] then region_id r else ''guidance_undefined'')"
| "stateContentId (Guidance g) =
     (if guidance_id g \<noteq> [] then guidance_id g else ''guidance_'' @ decimal (guidance_index g))"

definition writeItem :: "session_storage \<Rightarrow> string \<Rightarrow> session_page_data \<Rightarrow> session_storage" where
  "writeItem st k d = (case setItem st k (Parsed d) of None \<Rightarrow> st | Some st' \<Rightarrow> st')"

definition handleContentStateChange ::
  "string \<Rightarrow> string \<Rightarrow> content option \<Rightarrow> nat \<Rightarrow> page_state \<times> session_storage \<Rightarrow>
   page_state \<times> session_storage" where
  "handleContentStateChange wid n c stepIndex = (\<lambda>(pg, st).
     let contentId = map_option stateContentId c;
         prevId = map_option stateContentId (pg_currentActiveContent pg);
         pg1 = pg\<lparr>pg_currentActiveContent :=
                     (if prevId \<noteq> contentId then c else pg_currentActiveContent pg),
                   pg_currentStepIndex := stepIndex\<rparr>
     in if wid = [] \<or> n = [] then (pg1, st)
        else
          (case c of
             Some active \<Rightarrow>
               let updatedAllContentState =
                     (pg_allContentState pg)(stateContentId active \<mapsto>
                        \<lparr>stored_currentStepIndex = stepIndex\<rparr>)
               in (pg1\<lparr>pg_allContentState := updatedAllContentState\<rparr>,
                   writeItem st (sessionKey wid n)
                     \<lparr>lastActiveContentId = contentId, content_of = updatedAllContentState\<rparr>)
           | None \<Rightarrow>
               (case items st (sessionKey wid n) of
                  Some Unparseable \<Rightarrow> (pg1, st)
                | Some (Parsed currentSessionData) \<Rightarrow>
                    if lastActiveContentId currentSessionData \<noteq> None then
                      (pg1, writeItem st (sessionKey wid n)
                              \<lparr>lastActiveContentId = None, content_of = pg_allContentState pg\<rparr>)
                    else (pg1, st)
                | None \<Rightarrow>
                    (pg1, writeItem st (sessionKey wid n)
                            \<lparr>lastActiveContentId = None, content_of = pg_allContentState pg\<rparr>))))"

text \<open>The viewer's notification effect: the parent hears the active content and step.\<close>

definition notifyParent ::
  "string \<Rightarrow> string \<Rightarrow> viewer_state \<Rightarrow> page_state \<times> session_storage \<Rightarrow> page_state \<times> session_storage" where
  "notifyParent wid n s = handleContentStateChange wid n (activeContent s) (currentStepIndex s)"

section \<open>AutoModeViewer\<close>

record auto_viewer_state =
  av_isTextMode :: bool
  av_activeGuidance :: "guidance_item option"
  av_currentParagraphIndex :: nat
  av_displayedParagraphs :: "string list"

text \<open>handleGuidanceClick of AutoModeViewer.tsx.\<close>

definition autoViewerGuidanceClick ::
  "guidance_item \<Rightarrow> auto_viewer_state \<Rightarrow> auto_viewer_state \<times> effect list" where
  "autoViewerGuidanceClick g s =
     (if isNonClickable g then (s, [])
      else
        let paragraphs = splitIntoParagraphs (item_description g) in
        if paragraphs = [] then (s, [])
        else (s\<lparr>av_activeGuidance := Some g, av_currentParagraphIndex := 0,
                 av_displayedParagraphs := [hd paragraphs], av_isTextMode := True\<rparr>,
              [OnTextModeChange True]))"

section \<open>AutoModeContentDisplay\<close>

text \<open>
  AutoModeContentDisplay.tsx, over the types of src/types/worksheet.ts: a guidance item's
  description is an array of paragraphs. \<open>findIndex(g => g === activeGuidanceItem)\<close>
  compares objects by identity, so an item carries the identity of its object.
\<close>

record display_item =
  di_object :: nat
  di_title :: string
  di_description :: "string list"

record display_page =
  dp_page_number :: nat
  dp_page_description :: string
  dp_guidance :: "display_item list"

record display_props =
  dp_worksheetId :: string
  dp_pageNumber :: nat
  dp_pages :: "display_page list"

record display_state =
  ds_isTextMode :: bool
  ds_activeGuidanceItem :: "display_item option"
  ds_currentStepIndex :: nat
  ds_displayedMessages :: "string list"
  ds_isAudioPlaying :: bool
  ds_audioAvailable :: bool
  ds_audioCheckPerformed :: bool

definition display_initial :: display_state where
  "display_initial =
     \<lparr>ds_isTextMode = False, ds_activeGuidanceItem = None, ds_currentStepIndex = 0,
      ds_displayedMessages = [], ds_isAudioPlaying = False, ds_audioAvailable = True,
      ds_audioCheckPerformed = False\<rparr>"

datatype display_effect =
    DisplayOnTextModeChange bool
  | DisplayOnRegionStateChange string string nat
  | DisplayVideoRestartAndPlay
  | DisplayVideoPause
  | DisplayAudioPause
  | DisplayAudioRewind
  | DisplayAudioPlay string
  | DisplayAudioPlayAfterDelay string

definition displayCurrentPage :: "display_props \<Rightarrow> display_page option" where
  "displayCurrentPage p = find (\<lambda>page. dp_page_number page = dp_pageNumber p) (dp_pages p)"

definition displayVideoRendered :: "display_state \<Rightarrow> bool" where
  "displayVideoRendered s = (ds_activeGuidanceItem s \<noteq> None \<and> ds_audioAvailable s)"

definition isClickableTitle :: "display_item \<Rightarrow> bool" where
  "isClickableTitle item =
     (if di_description item = [] then False
      else list_ex (\<lambda>desc. trim desc \<noteq> [] \<and> trim desc \<noteq> ''<br>'' \<and> trim desc \<noteq> ''<br/>'')
             (di_description item))"

text \<open>
  playAudioSegment of AutoModeContentDisplay.tsx: the \<open>src\<close> it sets. The guidance index
  is what \<open>findIndex\<close> or the list's \<open>map\<close> gave, so it is at least -1.
\<close>

definition displayPlayAudioSegment :: "string \<Rightarrow> nat \<Rightarrow> int \<Rightarrow> nat \<Rightarrow> string" where
  "displayPlayAudioSegment wid pageNumber guidanceIndex stepIndex =
     ''/audio/'' @ wid @ ''/'' @ decimal pageNumber @ ''_'' @ decimal (nat (guidanceIndex + 1)) @
     ''_'' @ decimal (stepIndex + 1) @ ''.mp3''"

definition findIndex :: "('a \<Rightarrow> bool) \<Rightarrow> 'a list \<Rightarrow> int" where
  "findIndex P xs =
     (if list_ex P xs then int (length (takeWhile (\<lambda>x. \<not> P x) xs)) else - 1)"

text \<open>\<open>currentPage?.guidance.findIndex(g => g === activeGuidanceItem) || 0\<close>.\<close>

definition activeGuidanceIndex :: "display_props \<Rightarrow> display_state \<Rightarrow> int" where
  "activeGuidanceIndex p s =
     (case displayCurrentPage p of
        None \<Rightarrow> 0
      | Some currentPage \<Rightarrow>
          let i = findIndex
                (\<lambda>g. Some (di_object g) = map_option di_object (ds_activeGuidanceItem s))
                (dp_guidance currentPage)
          in if i = 0 then 0 else i)"

definition displayGuidanceClick ::
  "display_props \<Rightarrow> display_item \<Rightarrow> nat \<Rightarrow> display_state \<Rightarrow> display_state \<times> display_effect list" where
  "displayGuidanceClick p item index s =
     (if \<not> isClickableTitle item then (s, [])
      else
        (s\<lparr>ds_activeGuidanceItem := Some item, ds_currentStepIndex := 0,
           ds_displayedMessages := [hd (di_description item)], ds_isTextMode := True\<rparr>,
         [DisplayOnTextModeChange True,
          DisplayOnRegionStateChange (''guidance_'' @ decimal index) (di_title item) 0] @
         (if displayVideoRendered s \<and> ds_audioAvailable s then [DisplayVideoRestartAndPlay] else []) @
         (if ds_audioAvailable s
          then [DisplayAudioPlayAfterDelay
                  (displayPlayAudioSegment (dp_worksheetId p) (dp_pageNumber p) (int index) 0)]
          else [])))"

definition displayNextStep ::
  "display_props \<Rightarrow> display_state \<Rightarrow> display_state \<times> display_effect list" where
  "displayNextStep p s =
     (case ds_activeGuidanceItem s of
        None \<Rightarrow> (s, [])
      | Some item \<Rightarrow>
          if ds_currentStepIndex s + 1 < length (di_description item) then
            let nextStepIndex = ds_currentStepIndex s + 1
            in (s\<lparr>ds_currentStepIndex := nextStepIndex,
                   ds_displayedMessages :=
                     ds_displayedMessages s @ [di_description item ! nextStepIndex]\<rparr>,
                DisplayAudioPause #
                (if ds_audioAvailable s
                 then [DisplayAudioPlayAfterDelay
                         (displayPlayAudioSegment (dp_worksheetId p) (dp_pageNumber p)
                            (activeGuidanceIndex p s) nextStepIndex)]
                 else []))
          else (s, []))"

definition displayMessageClick ::
  "display_props \<Rightarrow> nat \<Rightarrow> display_state \<Rightarrow> display_state \<times> display_effect list" where
  "displayMessageClick p index s =
     (if ds_activeGuidanceItem s = None \<or> \<not> ds_audioAvailable s then (s, [])
      else (s, [DisplayAudioPause,
                DisplayAudioPlay
                  (displayPlayAudioSegment (dp_worksheetId p) (dp_pageNumber p)
                     (activeGuidanceIndex p s) index)]))"

definition displayBackButtonClick :: "display_state \<Rightarrow> display_state \<times> display_effect list" where
  "displayBackButtonClick s =
     (s\<lparr>ds_isTextMode := False, ds_activeGuidanceItem := None, ds_currentStepIndex := 0,
        ds_displayedMessages := [], ds_isAudioPlaying := False\<rparr>,
      [DisplayOnTextModeChange False, DisplayAudioPause, DisplayAudioRewind] @
      (if displayVideoRendered s then [DisplayVideoPause] else []))"

text \<open>
  The availability effect of AutoModeContentDisplay: it starts a probe of the path it
  returns when the guard is clear and the page has guidance (then the first item exists,
  and the early return for a missing first item is never taken). The component has no
  effect that clears \<open>audioCheckPerformed\<close>.
\<close>

definition displayAvailabilityCheck :: "display_props \<Rightarrow> display_state \<Rightarrow> string option" where
  "displayAvailabilityCheck p s =
     (if \<not> ds_audioCheckPerformed s \<and>
         (case displayCurrentPage p of None \<Rightarrow> False | Some currentPage \<Rightarrow> dp_guidance currentPage \<noteq> [])
      then Some (''/audio/'' @ dp_worksheetId p @ ''/'' @ decimal (dp_pageNumber p) @ ''_1_1.mp3'')
      else None)"

definition displayCompleteCheck :: "bool \<Rightarrow> bool \<times> display_state \<Rightarrow> bool \<times> display_state" where
  "displayCompleteCheck available = (\<lambda>(checkCompleted, s).
     if checkCompleted then (checkCompleted, s)
     else (True, s\<lparr>ds_audioAvailable := available, ds_audioCheckPerformed := True\<rparr>))"

section \<open>The probe over the life of a mounted component\<close>

text \<open>
  The closure of the availability effect's last run is kept beside the component's state:
  \<open>None\<close> when that run started no probe (or its cleanup has removed the listeners and the
  timer), \<open>Some checkCompleted\<close> while a probe's callbacks are registered. A render re-runs
  the effect: the cleanup of the previous run, then the guard and, when it passes, a fresh
  probe. A callback reaches \<open>completeCheck\<close> only through a registered probe.
  \<open>viewerStep\<close> above takes \<open>ProbeSettled\<close> as a commit that may arrive at any time;
  \<open>pageStep\<close> is the probe as the component runs it.
\<close>

definition availabilityEffect :: "props \<Rightarrow> bool option \<times> viewer_state \<Rightarrow> bool option \<times> viewer_state" where
  "availabilityEffect p = (\<lambda>(live, s).
     case audioAvailabilityCheck p s of
       (s', None) \<Rightarrow> (None, s')
     | (s', Some audioPath) \<Rightarrow> (Some False, s'))"

definition deliver :: "bool \<Rightarrow> bool option \<times> viewer_state \<Rightarrow> bool option \<times> viewer_state" where
  "deliver available = (\<lambda>(live, s).
     case live of
       None \<Rightarrow> (None, s)
     | Some checkCompleted \<Rightarrow>
         (Some (fst (completeCheck available (checkCompleted, s))),
          snd (completeCheck available (checkCompleted, s))))"

fun pageStep :: "props \<Rightarrow> event \<Rightarrow> bool option \<times> viewer_state \<Rightarrow> bool option \<times> viewer_state" where
  "pageStep p Rendered (live, s) =
     availabilityEffect p (live, fst (restoreInitialState p (fst (resetOnChange p s))))"
| "pageStep p (ProbeSettled available) (live, s) = deliver available (live, s)"
| "pageStep p (ClickRegion r) (live, s) = (live, fst (viewerStep p (ClickRegion r) s))"
| "pageStep p (ClickGuidance g) (live, s) = (live, fst (viewerStep p (ClickGuidance g) s))"
| "pageStep p NextStep (live, s) = (live, fst (viewerStep p NextStep s))"
| "pageStep p BackButton (live, s) = (live, fst (viewerStep p BackButton s))"
| "pageStep p (MessageClick index) (live, s) = (live, fst (viewerStep p (MessageClick index) s))"

fun pageRun :: "(props \<times> event) list \<Rightarrow> bool option \<times> viewer_state \<Rightarrow> bool option \<times> viewer_state" where
  "pageRun [] ls = ls"
| "pageRun ((p, e) # rest) ls = pageRun rest (pageStep p e ls)"

text \<open>
  A step commits an outcome when it sets \<open>audioCheckPerformed\<close>. A registered probe that
  has not completed was started with the guard clear, and nothing but its own commit sets
  the guard while it stays registered.
\<close>

definition commitsAt :: "props \<Rightarrow> event \<Rightarrow> bool option \<times> viewer_state \<Rightarrow> bool" where
  "commitsAt p e ls =
     (\<not> audioCheckPerformed (snd ls) \<and> audioCheckPerformed (snd (pageStep p e ls)))"

fun pageCommits :: "(props \<times> event) list \<Rightarrow> bool option \<times> viewer_state \<Rightarrow> nat" where
  "pageCommits [] ls = 0"
| "pageCommits ((p, e) # rest) ls =
     (if commitsAt p e ls then 1 else 0) + pageCommits rest (pageStep p e ls)"

definition probe_consistent :: "bool option \<times> viewer_state \<Rightarrow> bool" where
  "probe_consistent ls = (fst ls = Some False \<longrightarrow> \<not> audioCheckPerformed (snd ls))"

text \<open>The same for AutoModeContentDisplay, whose only effect on the guard is the probe's.\<close>

datatype display_event =
    DisplayClick display_item nat
  | DisplayNext
  | DisplayBack
  | DisplayMessage nat
  | DisplayRendered
  | DisplayProbeSettled bool

fun displayStep ::
  "display_props \<Rightarrow> display_event \<Rightarrow> bool option \<times> display_state \<Rightarrow> bool option \<times> display_state" where
  "displayStep p DisplayRendered (live, s) =
     (case displayAvailabilityCheck p s of None \<Rightarrow> (None, s) | Some audioPath \<Rightarrow> (Some False, s))"
| "displayStep p (DisplayProbeSettled available) (live, s) =
     (case live of
        None \<Rightarrow> (None, s)
      | Some checkCompleted \<Rightarrow>
          (Some (fst (displayCompleteCheck available (checkCompleted, s))),
           snd (displayCompleteCheck available (checkCompleted, s))))"
| "displayStep p (DisplayClick item index) (live, s) = (live, fst (displayGuidanceClick p item index s))"
| "displayStep p DisplayNext (live, s) = (live, fst (displayNextStep p s))"
| "displayStep p DisplayBack (live, s) = (live, fst (displayBackButtonClick s))"
| "displayStep p (DisplayMessage index) (live, s) = (live, fst (displayMessageClick p index s))"

fun displayRun ::
  "(display_props \<times> display_event) list \<Rightarrow> bool option \<times> display_state \<Rightarrow> bool option \<times> display_state" where
  "displayRun [] ls = ls"
| "displayRun ((p, e) # rest) ls = displayRun rest (displayStep p e ls)"

section \<open>Sample worksheets\<close>

text \<open>
  A regions worksheet with two regions on page 1 (the second one's only paragraph is a
  line-break placeholder), and a guidance worksheet whose page 1 has two items: the first
  with an empty description, the second with three paragraphs.
\<close>

definition sample_regions_meta :: worksheet_meta where
  "sample_regions_meta =
     RegionsMeta
       [\<lparr>raw_id = ''r1'', raw_page = 1, raw_name = ''intro'',
         raw_description = DescArray [''First'' @ [CHR 0x0A] @ ''Second'', ''Third'']\<rparr>,
        \<lparr>raw_id = ''r2'', raw_page = 1, raw_name = ''gap'',
         raw_description = DescArray [''<br>'']\<rparr>]"

definition sample_auto_page :: auto_page where
  "sample_auto_page =
     \<lparr>page_number = 1, page_description = ''Page one'',
      page_guidance =
        [\<lparr>item_title = ''**Heading**'', item_description = []\<rparr>,
         \<lparr>item_title = ''Steps'',
          item_description = ''One'' @ [CHR 0x0A] @ ''Two'' @ [CHR 0x0A] @ ''Three''\<rparr>]\<rparr>"

definition sample_auto_meta :: worksheet_meta where
  "sample_auto_meta = AutoMeta [sample_auto_page]"

definition sample_props :: "worksheet_meta \<Rightarrow> props" where
  "sample_props meta =
     \<lparr>worksheetId = ''w'', pageIndex = 1, worksheetMeta = meta, initialActiveContent = None,
      initialCurrentStepIndex = 0, allContentState = Map.empty\<rparr>"

definition sample_region :: region where
  "sample_region =
     \<lparr>region_id = ''r1'', region_page = 1, region_name = ''intro'',
      region_description = [''First'', ''Second'', ''Third'']\<rparr>"

definition sample_gap_region :: region where
  "sample_gap_region =
     \<lparr>region_id = ''r2'', region_page = 1, region_name = ''gap'',
      region_description = [''<br>'']\<rparr>"

definition sample_heading :: guidance where
  "sample_heading =
     \<lparr>guidance_title = ''**Heading**'', guidance_description = [],
      guidance_id = ''guidance_0'', guidance_index = 0\<rparr>"

definition sample_guidance :: guidance where
  "sample_guidance =
     \<lparr>guidance_title = ''Steps'',
      guidance_description = ''One'' @ [CHR 0x0A] @ ''Two'' @ [CHR 0x0A] @ ''Three'',
      guidance_id = ''guidance_1'', guidance_index = 1\<rparr>"

definition sample_saved_props :: props where
  "sample_saved_props =
     (sample_props sample_auto_meta)
       \<lparr>allContentState := [''guidance_1'' \<mapsto> \<lparr>stored_currentStepIndex = 1\<rparr>]\<rparr>"

definition sample_unavailable :: viewer_state where
  "sample_unavailable =
     (initial_state ''w'' 1)\<lparr>audioAvailable := False, audioCheckPerformed := True\<rparr>"

definition sample_auto_run :: "(props \<times> event) list" where
  "sample_auto_run =
     [(sample_props sample_auto_meta, ClickGuidance sample_guidance),
      (sample_props sample_auto_meta, NextStep),
      (sample_props sample_auto_meta, MessageClick 0)]"

definition sample_viewing :: viewer_state where
  "sample_viewing =
     run [(sample_props sample_regions_meta, ClickRegion sample_region),
          (sample_props sample_regions_meta, NextStep)] (initial_state ''w'' 1)"

text \<open>
  The sample guidance worksheet as AutoModeContentDisplay receives it, with a second page,
  and the same second page for WorksheetViewer.
\<close>

definition sample_display_item :: display_item where
  "sample_display_item =
     \<lparr>di_object = 11, di_title = ''Steps'', di_description = [''One'', ''Two'', ''Three'']\<rparr>"

definition sample_display_pages :: "display_page list" where
  "sample_display_pages =
     [\<lparr>dp_page_number = 1, dp_page_description = ''Page one'',
       dp_guidance =
         [\<lparr>di_object = 10, di_title = ''**Heading**'', di_description = []\<rparr>,
          sample_display_item]\<rparr>,
      \<lparr>dp_page_number = 2, dp_page_description = ''Page two'',
       dp_guidance =
         [\<lparr>di_object = 20, di_title = ''More'', di_description = [''Four'']\<rparr>]\<rparr>]"

definition sample_display_props :: "nat \<Rightarrow> display_props" where
  "sample_display_props page =
     \<lparr>dp_worksheetId = ''w'', dp_pageNumber = page, dp_pages = sample_display_pages\<rparr>"

definition sample_two_page_meta :: worksheet_meta where
  "sample_two_page_meta =
     AutoMeta
       [sample_auto_page,
        \<lparr>page_number = 2, page_description = ''Page two'',
         page_guidance = [\<lparr>item_title = ''More'', item_description = ''Four''\<rparr>]\<rparr>]"

definition sample_two_page_props :: "nat \<Rightarrow> props" where
  "sample_two_page_props page = (sample_props sample_two_page_meta)\<lparr>pageIndex := page\<rparr>"

text \<open>
  A visit of page 1 and then page 2 of worksheet w without remounting: the probe of
  page 1 ends by its timer, then the page prop changes, and a canplaythrough callback is
  ready for a probe of page 2.
\<close>

definition sample_display_visit :: "(display_props \<times> display_event) list" where
  "sample_display_visit =
     [(sample_display_props 1, DisplayRendered),
      (sample_display_props 1, DisplayProbeSettled False),
      (sample_display_props 2, DisplayRendered),
      (sample_display_props 2, DisplayProbeSettled True)]"

definition sample_viewer_visit :: "(props \<times> event) list" where
  "sample_viewer_visit =
     [(sample_two_page_props 1, Rendered),
      (sample_two_page_props 1, ProbeSettled False),
      (sample_two_page_props 2, Rendered),
      (sample_two_page_props 2, ProbeSettled True)]"

section \<open>The claims' own predicates\<close>

text \<open>
  The non-clickable predicate in the specification's words, as a function of a derived
  paragraph sequence: the sequence is empty, or it consists solely of line-break
  placeholder markers.
\<close>

definition is_placeholder :: "string \<Rightarrow> bool" where
  "is_placeholder paragraph = (trim paragraph = ''<br>'' \<or> trim paragraph = ''<br/>'')"

definition spec_non_clickable :: "string list \<Rightarrow> bool" where
  "spec_non_clickable paragraphs = (paragraphs = [] \<or> list_all is_placeholder paragraphs)"

definition sample_breaks :: guidance where
  "sample_breaks =
     \<lparr>guidance_title = ''Breaks'',
      guidance_description = ''<br>'' @ [CHR 0x0A] @ ''<br>'',
      guidance_id = ''guidance_2'', guidance_index = 2\<rparr>"

text \<open>
  The playback invariant in the specification's words: with a unit active the displayed
  paragraphs are exactly the prefix of its paragraphs of length \<open>stepIndex + 1\<close>; with
  none active the step is 0 and nothing is displayed.
\<close>

definition spec_invariant :: "mode \<Rightarrow> viewer_state \<Rightarrow> bool" where
  "spec_invariant m s =
     (case activeContent s of
        None \<Rightarrow> currentStepIndex s = 0 \<and> displayedMessages s = []
      | Some c \<Rightarrow>
          displayedMessages s = take (currentStepIndex s + 1) (contentDescription m c) \<and>
          length (displayedMessages s) = currentStepIndex s + 1)"

text \<open>
  The same, asked of an active unit only in regions mode or while the guidance detail mode
  is on.
\<close>

definition playback_invariant :: "mode \<Rightarrow> viewer_state \<Rightarrow> bool" where
  "playback_invariant m s =
     (case activeContent s of
        None \<Rightarrow> currentStepIndex s = 0 \<and> displayedMessages s = []
      | Some c \<Rightarrow>
          (m = Regions \<or> isGuidanceTextMode s) \<longrightarrow>
            displayedMessages s = take (currentStepIndex s + 1) (contentDescription m c) \<and>
            currentStepIndex s < length (contentDescription m c))"

text \<open>
  What a run takes from outside: the step saved for a clicked unit, and the step handed
  to the restoration effect, lie within the unit's paragraphs.
\<close>

definition saved_in_range :: "props \<Rightarrow> content \<Rightarrow> bool" where
  "saved_in_range p c =
     (contentDescription (mode_of (worksheetMeta p)) c = [] \<or>
      savedStepIndex p c < length (contentDescription (mode_of (worksheetMeta p)) c))"

definition restore_in_range :: "props \<Rightarrow> bool" where
  "restore_in_range p =
     (case initialActiveContent p of
        None \<Rightarrow> True
      | Some contentId \<Rightarrow>
          (case find (\<lambda>c. content_id c = contentId)
                  (currentPageContent (worksheetMeta p) (pageIndex p)) of
             None \<Rightarrow> True
           | Some c \<Rightarrow>
               initialCurrentStepIndex p < length (contentDescription (mode_of (worksheetMeta p)) c)))"

fun event_in_range :: "props \<Rightarrow> event \<Rightarrow> bool" where
  "event_in_range p (ClickRegion r) = saved_in_range p (Region r)"
| "event_in_range p (ClickGuidance g) = saved_in_range p (Guidance g)"
| "event_in_range p Rendered = restore_in_range p"
| "event_in_range p NextStep = True"
| "event_in_range p BackButton = True"
| "event_in_range p (MessageClick index) = True"
| "event_in_range p (ProbeSettled available) = True"

definition well_formed_run :: "mode \<Rightarrow> (props \<times> event) list \<Rightarrow> bool" where
  "well_formed_run m evs =
     list_all (\<lambda>pe. mode_of (worksheetMeta (fst pe)) = m \<and> event_in_range (fst pe) (snd pe)) evs"

definition sample_collapse_run :: "(props \<times> event) list" where
  "sample_collapse_run =
     [(sample_props sample_auto_meta, ClickGuidance sample_guidance),
      (sample_props sample_auto_meta, NextStep),
      (sample_props sample_auto_meta, BackButton)]"

text \<open>
  A session for the sample guidance worksheet after the second item was selected and
  advanced once: its progress is saved in the page's state and under the page's key.
\<close>

definition sample_progress :: "string \<rightharpoonup> stored_content_data" where
  "sample_progress = [''guidance_1'' \<mapsto> \<lparr>stored_currentStepIndex = 1\<rparr>]"

definition sample_record :: session_page_data where
  "sample_record = \<lparr>lastActiveContentId = Some ''guidance_1'', content_of = sample_progress\<rparr>"

definition sample_page_state :: page_state where
  "sample_page_state =
     \<lparr>pg_currentActiveContent = Some (Guidance sample_guidance), pg_currentStepIndex = 1,
      pg_allContentState = sample_progress, pg_initialActiveContent = None,
      pg_initialCurrentStepIndex = 0\<rparr>"

definition sample_storage :: session_storage where
  "sample_storage =
     \<lparr>items = [sessionKey ''w'' ''1'' \<mapsto> Parsed sample_record], quota_exceeded = False\<rparr>"

text \<open>
  A render restores when the restoration effect, run after the reset effect, sets the
  latch. \<open>restorations\<close> counts the restoring renders of a run; \<open>same_page\<close> says that an
  event's props name the worksheet and page the state's refs remember (no navigation).
\<close>

definition restoresAt :: "props \<Rightarrow> event \<Rightarrow> viewer_state \<Rightarrow> bool" where
  "restoresAt p e s =
     (e = Rendered \<and> \<not> hasRestoredInitialState (fst (resetOnChange p s)) \<and>
      hasRestoredInitialState (fst (restoreInitialState p (fst (resetOnChange p s)))))"

fun restorations :: "(props \<times> event) list \<Rightarrow> viewer_state \<Rightarrow> nat" where
  "restorations [] s = 0"
| "restorations ((p, e) # rest) s =
     (if restoresAt p e s then 1 else 0) + restorations rest (fst (viewerStep p e s))"

definition same_page :: "viewer_state \<Rightarrow> props \<times> event \<Rightarrow> bool" where
  "same_page s pe =
     (worksheetId (fst pe) = prevWorksheetId s \<and> pageIndex (fst pe) = prevPageIndex s)"

text \<open>
  A session record for the sample regions worksheet that names region r2 as last active,
  and a resume handoff that names region r1 at step 2.
\<close>

definition sample_regions_storage :: session_storage where
  "sample_regions_storage =
     \<lparr>items = [sessionKey ''w'' ''1'' \<mapsto>
         Parsed \<lparr>lastActiveContentId = Some ''r2'',
                 content_of = [''r1'' \<mapsto> \<lparr>stored_currentStepIndex = 1\<rparr>,
                               ''r2'' \<mapsto> \<lparr>stored_currentStepIndex = 0\<rparr>]\<rparr>],
      quota_exceeded = False\<rparr>"

definition sample_handoff :: location_state where
  "sample_handoff =
     \<lparr>loc_initialActiveContent = Some ''r1'', loc_initialCurrentStepIndex = Some 2\<rparr>"

definition sample_fresh_page :: page_state where
  "sample_fresh_page =
     \<lparr>pg_currentActiveContent = None, pg_currentStepIndex = 0,
      pg_allContentState = Map.empty, pg_initialActiveContent = None,
      pg_initialCurrentStepIndex = 0\<rparr>"

text \<open>The viewer's props as WorksheetPage passes them for the sample regions worksheet.\<close>

definition sample_page_props :: "page_state \<Rightarrow> props" where
  "sample_page_props pg =
     \<lparr>worksheetId = ''w'', pageIndex = 1, worksheetMeta = sample_regions_meta,
      initialActiveContent = pg_initialActiveContent pg,
      initialCurrentStepIndex = pg_initialCurrentStepIndex pg,
      allContentState = pg_allContentState pg\<rparr>"

definition sample_resumed_props :: props where
  "sample_resumed_props =
     sample_page_props
       (loadSessionState ''w'' ''1'' (Some sample_handoff) (Some sample_regions_meta)
          sample_regions_storage sample_fresh_page)"

definition sample_resumed_run :: "(props \<times> event) list" where
  "sample_resumed_run =
     [(sample_resumed_props, Rendered),
      (sample_resumed_props, BackButton),
      (sample_resumed_props, Rendered),
      (sample_resumed_props\<lparr>worksheetMeta := sample_regions_meta\<rparr>, Rendered)]"

section \<open>Theorems\<close>

text \<open>
  C10. On a video time tick, with the resting boundary 10: while audio plays a time below
  10 and a time at or above 20 are both set to 10 and a time in between is kept, so the
  result lies in the speak window from 10 up to 20; while audio does not play a time at or
  above 9.9 is set to 0 and a smaller time is kept, so a non-negative time ends in the
  rest window from 0 up to 10.
\<close>

theorem video_tick_windows:
  "(playing \<longrightarrow>
      (t < 10 \<longrightarrow> handleVideoTimeUpdate playing t = 10) \<and>
      (20 \<le> t \<longrightarrow> handleVideoTimeUpdate playing t = 10) \<and>
      (10 \<le> t \<and> t < 20 \<longrightarrow> handleVideoTimeUpdate playing t = t) \<and>
      10 \<le> handleVideoTimeUpdate playing t \<and>
      handleVideoTimeUpdate playing t < 20) \<and>
   (\<not> playing \<longrightarrow>
      (99 / 10 \<le> t \<longrightarrow> handleVideoTimeUpdate playing t = 0) \<and>
      (t < 99 / 10 \<longrightarrow> handleVideoTimeUpdate playing t = t) \<and>
      (0 \<le> t \<longrightarrow> 0 \<le> handleVideoTimeUpdate playing t \<and>
                 handleVideoTimeUpdate playing t < 10))"
  by (auto simp: handleVideoTimeUpdate_def Let_def)

theorem video_tick_windows_witness:
  "handleVideoTimeUpdate True 3 = 10 \<and> handleVideoTimeUpdate True 25 = 10 \<and>
   handleVideoTimeUpdate True 12 = 12 \<and>
   handleVideoTimeUpdate False (995 / 100) = 0 \<and> handleVideoTimeUpdate False 25 = 0 \<and>
   handleVideoTimeUpdate False 4 = 4"
  using video_tick_windows [of True 3] video_tick_windows [of True 25]
    video_tick_windows [of True 12] video_tick_windows [of False "995 / 100"]
    video_tick_windows [of False 25] video_tick_windows [of False 4]
  by simp


subsection \<open>The probe\<close>

lemma probe_settled_stays:
  "foldl (\<lambda>st signal. probeCallback signal st) (True, s) signals = (True, s)"
proof (induction signals)
  case Nil
  show ?case by simp
next
  case (Cons a signals)
  have "probeCallback a (True, s) = (True, s)"
    by (cases a) (simp_all add: completeCheck_def)
  with Cons show ?case by simp
qed

lemma runProbe_Cons:
  "runProbe (signal # later) s =
     (True, s\<lparr>audioAvailable := (signal = CanPlayThrough), audioCheckPerformed := True\<rparr>)"
  by (cases signal) (simp_all add: runProbe_def completeCheck_def probe_settled_stays)

text \<open>
  One probe: with no callback nothing is committed; otherwise the first callback decides
  (available exactly when it is canplaythrough; error and the timer give unavailable) and
  whatever callbacks follow leave the committed result as it is. On the time line: a media
  event before the 3000 ms timer decides, and with no media event before the timer the
  result is unavailable.
\<close>

lemma probe_first_settle_wins:
  "runProbe [] s = (False, s) \<and>
   runProbe (signal # later) s =
     (True, s\<lparr>audioAvailable := (signal = CanPlayThrough), audioCheckPerformed := True\<rparr>) \<and>
   (t < probeTimeout \<longrightarrow>
      runProbe (dispatchOrder ((t, signal) # events)) s =
        (True, s\<lparr>audioAvailable := (signal = CanPlayThrough), audioCheckPerformed := True\<rparr>)) \<and>
   (probeTimeout \<le> t \<longrightarrow>
      runProbe (dispatchOrder ((t, signal) # events)) s =
        (True, s\<lparr>audioAvailable := False, audioCheckPerformed := True\<rparr>)) \<and>
   runProbe (dispatchOrder []) s =
     (True, s\<lparr>audioAvailable := False, audioCheckPerformed := True\<rparr>)"
  by (simp add: runProbe_Cons dispatchOrder_def) (simp add: runProbe_def)

subsection \<open>Navigation reset\<close>

text \<open>
  C9. The reset effect resets exactly when the worksheet id or the page number differs
  from the one remembered in the refs: then the active unit, the step, the paragraphs, both
  text modes, the audio-playing flag, the probe flag and the restoration latch are cleared,
  audio is paused and rewound (and the video, when it is rendered), and the refs take the
  new identifiers. With both identifiers unchanged the state is returned as it is and
  nothing is done; so a second invocation right after a reset changes nothing.
\<close>

theorem reset_only_on_change:
  "(prevWorksheetId s \<noteq> worksheetId p \<or> prevPageIndex s \<noteq> pageIndex p \<longrightarrow>
      activeContent (fst (resetOnChange p s)) = None \<and>
      currentStepIndex (fst (resetOnChange p s)) = 0 \<and>
      displayedMessages (fst (resetOnChange p s)) = [] \<and>
      \<not> isTextMode (fst (resetOnChange p s)) \<and>
      \<not> isGuidanceTextMode (fst (resetOnChange p s)) \<and>
      \<not> isAudioPlaying (fst (resetOnChange p s)) \<and>
      \<not> audioCheckPerformed (fst (resetOnChange p s)) \<and>
      \<not> hasRestoredInitialState (fst (resetOnChange p s)) \<and>
      prevWorksheetId (fst (resetOnChange p s)) = worksheetId p \<and>
      prevPageIndex (fst (resetOnChange p s)) = pageIndex p \<and>
      audioAvailable (fst (resetOnChange p s)) = audioAvailable s \<and>
      snd (resetOnChange p s) =
        [OnTextModeChange False, AudioPause, AudioRewind] @
        (if videoRendered s then [VideoPause, VideoRewind] else [])) \<and>
   (prevWorksheetId s = worksheetId p \<and> prevPageIndex s = pageIndex p \<longrightarrow>
      resetOnChange p s = (s, [])) \<and>
   resetOnChange p (fst (resetOnChange p s)) = (fst (resetOnChange p s), [])"
  by (simp add: resetOnChange_def Let_def)

theorem reset_only_on_change_witness:
  "activeContent sample_viewing = Some (Region sample_region) \<and>
   currentStepIndex sample_viewing = 1 \<and>
   activeContent
     (fst (resetOnChange ((sample_props sample_regions_meta)\<lparr>pageIndex := 2\<rparr>) sample_viewing)) = None \<and>
   currentStepIndex
     (fst (resetOnChange ((sample_props sample_regions_meta)\<lparr>pageIndex := 2\<rparr>) sample_viewing)) = 0 \<and>
   displayedMessages
     (fst (resetOnChange ((sample_props sample_regions_meta)\<lparr>pageIndex := 2\<rparr>) sample_viewing)) = [] \<and>
   resetOnChange (sample_props sample_regions_meta) sample_viewing = (sample_viewing, [])"
proof -
  have active: "activeContent sample_viewing = Some (Region sample_region)"
    by code_simp
  have step: "currentStepIndex sample_viewing = 1"
    by code_simp
  have changed: "prevWorksheetId sample_viewing \<noteq>
      worksheetId ((sample_props sample_regions_meta)\<lparr>pageIndex := 2\<rparr>) \<or>
    prevPageIndex sample_viewing \<noteq> pageIndex ((sample_props sample_regions_meta)\<lparr>pageIndex := 2\<rparr>)"
    by code_simp
  have same: "prevWorksheetId sample_viewing = worksheetId (sample_props sample_regions_meta) \<and>
    prevPageIndex sample_viewing = pageIndex (sample_props sample_regions_meta)"
    by code_simp
  show ?thesis
    using active step changed same
      reset_only_on_change [of sample_viewing "(sample_props sample_regions_meta)\<lparr>pageIndex := 2\<rparr>"]
      reset_only_on_change [of sample_viewing "sample_props sample_regions_meta"]
    by blast
qed

subsection \<open>Availability gates media\<close>

lemma commit_fst:
  "fst (commitEffects p s) =
     fst (audioAvailabilityCheck p (fst (restoreInitialState p (fst (resetOnChange p s)))))"
  by (simp add: commitEffects_def split: prod.split)

lemma commit_snd:
  "snd (commitEffects p s) =
     snd (resetOnChange p s) @ snd (restoreInitialState p (fst (resetOnChange p s)))"
  by (simp add: commitEffects_def split: prod.split)

lemma click_fst_availability:
  "fst (handleContentClick p c (s\<lparr>audioAvailable := False\<rparr>)) =
     (fst (handleContentClick p c s))\<lparr>audioAvailable := False\<rparr>"
  by (simp add: handleContentClick_def Let_def)

lemma next_fst_availability:
  "fst (handleNextStep p (s\<lparr>audioAvailable := False\<rparr>)) =
     (fst (handleNextStep p s))\<lparr>audioAvailable := False\<rparr>"
  by (simp add: handleNextStep_def Let_def split: option.split)

lemma message_fst_availability:
  "fst (handleMessageClick p i (s\<lparr>audioAvailable := False\<rparr>)) =
     (fst (handleMessageClick p i s))\<lparr>audioAvailable := False\<rparr>"
  by (simp add: handleMessageClick_def split: option.split)

lemma back_fst_availability:
  "fst (handleBackButtonClick p (s\<lparr>audioAvailable := False\<rparr>)) =
     (fst (handleBackButtonClick p s))\<lparr>audioAvailable := False\<rparr>"
  by (simp add: handleBackButtonClick_def)

lemma reset_fst_availability:
  "fst (resetOnChange p (s\<lparr>audioAvailable := False\<rparr>)) =
     (fst (resetOnChange p s))\<lparr>audioAvailable := False\<rparr>"
  by (simp add: resetOnChange_def Let_def)

lemma restore_fst_availability:
  "fst (restoreInitialState p (s\<lparr>audioAvailable := False\<rparr>)) =
     (fst (restoreInitialState p s))\<lparr>audioAvailable := False\<rparr>"
  by (simp add: restoreInitialState_def Let_def split: option.split)

lemma check_fst_availability:
  "fst (audioAvailabilityCheck p (s\<lparr>audioAvailable := False\<rparr>)) =
     (fst (audioAvailabilityCheck p s))\<lparr>audioAvailable := False\<rparr>"
  by (simp add: audioAvailabilityCheck_def split: mode.split content.split)

lemma step_fst_availability:
  assumes "\<not> isProbeEvent e"
  shows "fst (viewerStep p e (s\<lparr>audioAvailable := False\<rparr>)) =
     (fst (viewerStep p e s))\<lparr>audioAvailable := False\<rparr>"
proof (cases e)
  case (ClickRegion r)
  then show ?thesis by (simp add: handleRegionClick_def click_fst_availability)
next
  case (ClickGuidance g)
  then show ?thesis by (simp add: handleGuidanceClick_def click_fst_availability)
next
  case NextStep
  then show ?thesis by (simp add: next_fst_availability)
next
  case BackButton
  then show ?thesis by (simp add: back_fst_availability)
next
  case (MessageClick i)
  then show ?thesis by (simp add: message_fst_availability)
next
  case Rendered
  then show ?thesis
    by (simp add: commit_fst reset_fst_availability restore_fst_availability
        check_fst_availability)
next
  case (ProbeSettled b)
  with assms show ?thesis by simp
qed

lemma unavailable_as_update:
  "\<not> audioAvailable s \<Longrightarrow> s\<lparr>audioAvailable := False\<rparr> = s"
  by simp

lemma click_no_media:
  "\<not> audioAvailable s \<Longrightarrow> list_all (\<lambda>x. \<not> startsMedia x) (snd (handleContentClick p c s))"
  by (simp add: handleContentClick_def Let_def)

lemma next_no_media:
  "\<not> audioAvailable s \<Longrightarrow> list_all (\<lambda>x. \<not> startsMedia x) (snd (handleNextStep p s))"
  by (simp add: handleNextStep_def Let_def split: option.split)

lemma message_no_media:
  "\<not> audioAvailable s \<Longrightarrow> list_all (\<lambda>x. \<not> startsMedia x) (snd (handleMessageClick p i s))"
  by (simp add: handleMessageClick_def split: option.split)

lemma back_no_media:
  "list_all (\<lambda>x. \<not> startsMedia x) (snd (handleBackButtonClick p s))"
  by (simp add: handleBackButtonClick_def)

lemma reset_no_media:
  "list_all (\<lambda>x. \<not> startsMedia x) (snd (resetOnChange p s))"
  by (simp add: resetOnChange_def Let_def)

lemma restore_no_media:
  "\<not> audioAvailable s \<Longrightarrow> list_all (\<lambda>x. \<not> startsMedia x) (snd (restoreInitialState p s))"
  by (simp add: restoreInitialState_def Let_def split: option.split)

lemma reset_keeps_availability:
  "audioAvailable (fst (resetOnChange p s)) = audioAvailable s"
  by (simp add: resetOnChange_def Let_def)

lemma step_no_media:
  assumes "\<not> audioAvailable s"
  shows "list_all (\<lambda>x. \<not> startsMedia x) (snd (viewerStep p e s))"
proof (cases e)
  case (ClickRegion r)
  with assms show ?thesis by (simp add: handleRegionClick_def click_no_media)
next
  case (ClickGuidance g)
  with assms show ?thesis by (simp add: handleGuidanceClick_def click_no_media)
next
  case NextStep
  with assms show ?thesis by (simp add: next_no_media)
next
  case BackButton
  then show ?thesis by (simp add: back_no_media)
next
  case (MessageClick i)
  with assms show ?thesis by (simp add: message_no_media)
next
  case Rendered
  with assms show ?thesis
    by (simp add: commit_snd reset_no_media restore_no_media reset_keeps_availability)
next
  case (ProbeSettled b)
  then show ?thesis by simp
qed

lemma step_stays_unavailable:
  assumes "\<not> audioAvailable s" and "\<not> isProbeEvent e"
  shows "\<not> audioAvailable (fst (viewerStep p e s))"
proof -
  from assms(1) have "s\<lparr>audioAvailable := False\<rparr> = s" by simp
  then have "fst (viewerStep p e s) = (fst (viewerStep p e s))\<lparr>audioAvailable := False\<rparr>"
    using step_fst_availability [OF assms(2), of p s] by simp
  then have "audioAvailable (fst (viewerStep p e s)) =
      audioAvailable ((fst (viewerStep p e s))\<lparr>audioAvailable := False\<rparr>)"
    by simp
  then show ?thesis by simp
qed


lemma run_fst_availability:
  "list_all (\<lambda>pe. \<not> isProbeEvent (snd pe)) evs \<Longrightarrow>
   run evs (s\<lparr>audioAvailable := False\<rparr>) = (run evs s)\<lparr>audioAvailable := False\<rparr>"
proof (induction evs arbitrary: s)
  case Nil
  show ?case by simp
next
  case (Cons pe evs)
  obtain p e where pe: "pe = (p, e)" by (cases pe)
  from Cons.prems pe have e: "\<not> isProbeEvent e"
    and rest: "list_all (\<lambda>pe. \<not> isProbeEvent (snd pe)) evs"
    by simp_all
  show ?case
    using Cons.IH [OF rest] step_fst_availability [OF e] pe by simp
qed

lemma run_no_media:
  "\<not> audioAvailable s \<Longrightarrow> list_all (\<lambda>pe. \<not> isProbeEvent (snd pe)) evs \<Longrightarrow>
   list_all (\<lambda>x. \<not> startsMedia x) (runEffects evs s) \<and> \<not> audioAvailable (run evs s)"
proof (induction evs arbitrary: s)
  case Nil
  then show ?case by simp
next
  case (Cons pe evs)
  obtain p e where pe: "pe = (p, e)" by (cases pe)
  from Cons.prems pe have e: "\<not> isProbeEvent e"
    and rest: "list_all (\<lambda>pe. \<not> isProbeEvent (snd pe)) evs"
    by simp_all
  have next_unavailable: "\<not> audioAvailable (fst (viewerStep p e s))"
    using step_stays_unavailable [OF Cons.prems(1) e] .
  show ?case
    using Cons.IH [OF next_unavailable rest] step_no_media [OF Cons.prems(1), of p e] pe
    by simp
qed

text \<open>
  C7. Once the probe has left audio unavailable, and until another probe settles, no
  select, advance, paragraph replay, back or render starts audio or video, the video
  element is not rendered, and the state the run reaches is the state it would reach with
  audio available, but for the availability flag: paragraphs progress unchanged.
\<close>

theorem unavailable_gates_media:
  assumes "\<not> audioAvailable s"
    and "list_all (\<lambda>pe. \<not> isProbeEvent (snd pe)) evs"
  shows "list_all (\<lambda>x. \<not> startsMedia x) (runEffects evs s) \<and>
         \<not> videoRendered (run evs s) \<and>
         run evs s = (run evs (s\<lparr>audioAvailable := True\<rparr>))\<lparr>audioAvailable := False\<rparr>"
proof -
  have "\<not> audioAvailable (run evs s)"
    using run_no_media [OF assms] by simp
  then have video: "\<not> videoRendered (run evs s)"
    by (simp add: videoRendered_def)
  have "run evs ((s\<lparr>audioAvailable := True\<rparr>)\<lparr>audioAvailable := False\<rparr>) =
        (run evs (s\<lparr>audioAvailable := True\<rparr>))\<lparr>audioAvailable := False\<rparr>"
    by (rule run_fst_availability [OF assms(2)])
  moreover have "(s\<lparr>audioAvailable := True\<rparr>)\<lparr>audioAvailable := False\<rparr> = s"
    using assms(1) by simp
  ultimately have "run evs s = (run evs (s\<lparr>audioAvailable := True\<rparr>))\<lparr>audioAvailable := False\<rparr>"
    by simp
  with video run_no_media [OF assms] show ?thesis by simp
qed

theorem unavailable_gates_media_witness:
  "list_all (\<lambda>x. \<not> startsMedia x) (runEffects sample_auto_run sample_unavailable) \<and>
   \<not> videoRendered (run sample_auto_run sample_unavailable) \<and>
   run sample_auto_run sample_unavailable =
     (run sample_auto_run (sample_unavailable\<lparr>audioAvailable := True\<rparr>))\<lparr>audioAvailable := False\<rparr> \<and>
   displayedMessages (run sample_auto_run sample_unavailable) = [''One'', ''Two''] \<and>
   currentStepIndex (run sample_auto_run sample_unavailable) = 1"
proof -
  have unavailable: "\<not> audioAvailable sample_unavailable"
    by (simp add: sample_unavailable_def)
  have events: "list_all (\<lambda>pe. \<not> isProbeEvent (snd pe)) sample_auto_run"
    by (simp add: sample_auto_run_def)
  have shown: "displayedMessages (run sample_auto_run sample_unavailable) = [''One'', ''Two'']"
    by code_simp
  have step: "currentStepIndex (run sample_auto_run sample_unavailable) = 1"
    by code_simp
  show ?thesis
    using unavailable_gates_media [OF unavailable events] shown step by blast
qed

subsection \<open>Selecting a unit\<close>

lemma click_inert:
  "contentDescription (mode_of (worksheetMeta p)) c = [] \<Longrightarrow> handleContentClick p c s = (s, [])"
  by (simp add: handleContentClick_def)

lemma click_selects:
  "contentDescription (mode_of (worksheetMeta p)) c \<noteq> [] \<Longrightarrow>
   handleContentClick p c s =
     (s\<lparr>currentStepIndex := savedStepIndex p c,
        displayedMessages :=
          take (savedStepIndex p c + 1) (contentDescription (mode_of (worksheetMeta p)) c),
        activeContent := Some c,
        isTextMode := True,
        isGuidanceTextMode := (mode_of (worksheetMeta p) = Auto \<or> isGuidanceTextMode s)\<rparr>,
      (if videoRendered s \<and> audioAvailable s then [VideoRestartAndPlay] else []) @
      (if audioAvailable s then [AudioPlayAfterDelay (audioSrc p c (savedStepIndex p c))] else []) @
      [OnTextModeChange True])"
  by (simp add: handleContentClick_def Let_def)

lemma nonclickable_no_paragraphs:
  "isNonClickableGuidance g \<Longrightarrow> processGuidanceDescription (guidance_description g) = []"
  by (simp add: isNonClickableGuidance_def processGuidanceDescription_def)

text \<open>
  C5, as the code has it. Selecting a region whose paragraph sequence is empty, or a
  guidance item that fails the component's clickability test (its whole description,
  trimmed, is empty or the one placeholder) or whose paragraph sequence is empty, returns
  the state unchanged and does nothing. Otherwise, and so also for a unit whose paragraphs
  are all placeholders, the unit becomes the active one, the step index is the unit's
  saved step from the session progress when there is one and 0 when there is none, the
  displayed paragraphs are the prefix through that step, and text mode is on (in auto mode
  the guidance detail mode too).
\<close>

theorem select_behaviour:
  "(contentDescription (mode_of (worksheetMeta p)) (Region r) = [] \<longrightarrow>
      viewerStep p (ClickRegion r) s = (s, [])) \<and>
   (isNonClickableGuidance g \<or>
    contentDescription (mode_of (worksheetMeta p)) (Guidance g) = [] \<longrightarrow>
      viewerStep p (ClickGuidance g) s = (s, [])) \<and>
   ((c = Region r \<and> e = ClickRegion r \<or>
     c = Guidance g \<and> e = ClickGuidance g \<and> \<not> isNonClickableGuidance g) \<and>
    contentDescription (mode_of (worksheetMeta p)) c \<noteq> [] \<longrightarrow>
      activeContent (fst (viewerStep p e s)) = Some c \<and>
      currentStepIndex (fst (viewerStep p e s)) =
        (case allContentState p (content_id c) of
           None \<Rightarrow> 0
         | Some saved \<Rightarrow> stored_currentStepIndex saved) \<and>
      displayedMessages (fst (viewerStep p e s)) =
        take (currentStepIndex (fst (viewerStep p e s)) + 1)
          (contentDescription (mode_of (worksheetMeta p)) c) \<and>
      isTextMode (fst (viewerStep p e s)) \<and>
      (mode_of (worksheetMeta p) = Auto \<longrightarrow> isGuidanceTextMode (fst (viewerStep p e s))))"
proof (intro conjI impI)
  assume "contentDescription (mode_of (worksheetMeta p)) (Region r) = []"
  then show "viewerStep p (ClickRegion r) s = (s, [])"
    by (simp add: handleRegionClick_def click_inert)
next
  assume "isNonClickableGuidance g \<or>
    contentDescription (mode_of (worksheetMeta p)) (Guidance g) = []"
  then show "viewerStep p (ClickGuidance g) s = (s, [])"
    by (auto simp: handleGuidanceClick_def click_inert)
next
  assume a: "(c = Region r \<and> e = ClickRegion r \<or>
     c = Guidance g \<and> e = ClickGuidance g \<and> \<not> isNonClickableGuidance g) \<and>
    contentDescription (mode_of (worksheetMeta p)) c \<noteq> []"
  then have step: "viewerStep p e s = handleContentClick p c s"
    by (auto simp: handleRegionClick_def handleGuidanceClick_def)
  from a have d: "contentDescription (mode_of (worksheetMeta p)) c \<noteq> []" by simp
  show "activeContent (fst (viewerStep p e s)) = Some c"
    by (simp add: step click_selects [OF d])
  show "currentStepIndex (fst (viewerStep p e s)) =
        (case allContentState p (content_id c) of
           None \<Rightarrow> 0
         | Some saved \<Rightarrow> stored_currentStepIndex saved)"
    by (simp add: step click_selects [OF d] savedStepIndex_def)
  show "displayedMessages (fst (viewerStep p e s)) =
        take (currentStepIndex (fst (viewerStep p e s)) + 1)
          (contentDescription (mode_of (worksheetMeta p)) c)"
    by (simp add: step click_selects [OF d])
  show "isTextMode (fst (viewerStep p e s))"
    by (simp add: step click_selects [OF d])
  show "isGuidanceTextMode (fst (viewerStep p e s))" if "mode_of (worksheetMeta p) = Auto"
    using that by (simp add: step click_selects [OF d])
qed

theorem select_behaviour_witness:
  "viewerStep sample_saved_props (ClickGuidance sample_heading) (initial_state ''w'' 1) =
     (initial_state ''w'' 1, []) \<and>
   activeContent (fst (viewerStep sample_saved_props (ClickGuidance sample_guidance)
     (initial_state ''w'' 1))) = Some (Guidance sample_guidance) \<and>
   currentStepIndex (fst (viewerStep sample_saved_props (ClickGuidance sample_guidance)
     (initial_state ''w'' 1))) = 1 \<and>
   displayedMessages (fst (viewerStep sample_saved_props (ClickGuidance sample_guidance)
     (initial_state ''w'' 1))) = [''One'', ''Two''] \<and>
   activeContent (fst (viewerStep (sample_props sample_regions_meta) (ClickRegion sample_region)
     (initial_state ''w'' 1))) = Some (Region sample_region) \<and>
   currentStepIndex (fst (viewerStep (sample_props sample_regions_meta) (ClickRegion sample_region)
     (initial_state ''w'' 1))) = 0 \<and>
   displayedMessages (fst (viewerStep (sample_props sample_regions_meta) (ClickRegion sample_region)
     (initial_state ''w'' 1))) = [''First'']"
proof -
  have heading: "isNonClickableGuidance sample_heading"
    by code_simp
  have clickable: "\<not> isNonClickableGuidance sample_guidance"
    by code_simp
  have paragraphs:
    "contentDescription (mode_of (worksheetMeta sample_saved_props)) (Guidance sample_guidance) =
       [''One'', ''Two'', ''Three'']"
    by code_simp
  have saved:
    "allContentState sample_saved_props (content_id (Guidance sample_guidance)) =
       Some \<lparr>stored_currentStepIndex = 1\<rparr>"
    by (simp add: sample_saved_props_def sample_guidance_def)
  have region_paragraphs:
    "contentDescription (mode_of (worksheetMeta (sample_props sample_regions_meta)))
       (Region sample_region) = [''First'', ''Second'', ''Third'']"
    by code_simp
  have unsaved:
    "allContentState (sample_props sample_regions_meta) (content_id (Region sample_region)) = None"
    by (simp add: sample_props_def)
  note auto_case = select_behaviour [of sample_saved_props sample_region
      "initial_state ''w'' 1" sample_guidance "Guidance sample_guidance"
      "ClickGuidance sample_guidance"]
  note heading_case = select_behaviour [of sample_saved_props sample_region
      "initial_state ''w'' 1" sample_heading "Guidance sample_heading"
      "ClickGuidance sample_heading"]
  note region_case = select_behaviour [of "sample_props sample_regions_meta" sample_region
      "initial_state ''w'' 1" sample_guidance "Region sample_region"
      "ClickRegion sample_region"]
  have a: "viewerStep sample_saved_props (ClickGuidance sample_heading) (initial_state ''w'' 1) =
     (initial_state ''w'' 1, [])"
    using heading_case heading by blast
  have b: "activeContent (fst (viewerStep sample_saved_props (ClickGuidance sample_guidance)
       (initial_state ''w'' 1))) = Some (Guidance sample_guidance) \<and>
     currentStepIndex (fst (viewerStep sample_saved_props (ClickGuidance sample_guidance)
       (initial_state ''w'' 1))) = 1 \<and>
     displayedMessages (fst (viewerStep sample_saved_props (ClickGuidance sample_guidance)
       (initial_state ''w'' 1))) = [''One'', ''Two'']"
    using auto_case clickable paragraphs saved by simp
  have c: "activeContent (fst (viewerStep (sample_props sample_regions_meta)
       (ClickRegion sample_region) (initial_state ''w'' 1))) = Some (Region sample_region) \<and>
     currentStepIndex (fst (viewerStep (sample_props sample_regions_meta)
       (ClickRegion sample_region) (initial_state ''w'' 1))) = 0 \<and>
     displayedMessages (fst (viewerStep (sample_props sample_regions_meta)
       (ClickRegion sample_region) (initial_state ''w'' 1))) = [''First'']"
    using region_case region_paragraphs unsaved by simp
  from a b c show ?thesis by blast
qed

text \<open>
  C5 as stated fails for units that are non-clickable in the specification's sense without
  being empty: the region whose only paragraph is the placeholder, and the guidance item
  of two placeholder lines. Selecting either is not a no-op: the unit becomes active at
  step 0 with its first placeholder paragraph displayed.
\<close>

theorem select_placeholder_unit_counterexample:
  "spec_non_clickable
     (contentDescription (mode_of (worksheetMeta (sample_props sample_regions_meta)))
        (Region sample_gap_region)) \<and>
   viewerStep (sample_props sample_regions_meta) (ClickRegion sample_gap_region)
     (initial_state ''w'' 1) =
     ((initial_state ''w'' 1)
        \<lparr>activeContent := Some (Region sample_gap_region), isTextMode := True,
         displayedMessages := [''<br>'']\<rparr>,
      [AudioPlayAfterDelay ''/audio/w/gap_1.mp3'', OnTextModeChange True]) \<and>
   isTextMode (initial_state ''w'' 1) = False \<and>
   spec_non_clickable
     (contentDescription (mode_of (worksheetMeta (sample_props sample_auto_meta)))
        (Guidance sample_breaks)) \<and>
   viewerStep (sample_props sample_auto_meta) (ClickGuidance sample_breaks)
     (initial_state ''w'' 1) =
     ((initial_state ''w'' 1)
        \<lparr>activeContent := Some (Guidance sample_breaks), isTextMode := True,
         isGuidanceTextMode := True, displayedMessages := [''<br>'']\<rparr>,
      [AudioPlayAfterDelay ''/audio/w/1_2_1.mp3'', OnTextModeChange True])"
  by code_simp

subsection \<open>Audio asset paths\<close>

lemma auto_content_nth:
  assumes "find (\<lambda>page. page_number page = n) pages = Some pageData"
    and "i < length (page_guidance pageData)"
  shows "currentPageContent (AutoMeta pages) n ! i =
     Guidance \<lparr>guidance_title = item_title (page_guidance pageData ! i),
               guidance_description = item_description (page_guidance pageData ! i),
               guidance_id = ''guidance_'' @ decimal i, guidance_index = i\<rparr>"
  using assms by (simp add: index_guidance_def nth_enumerate_eq)

lemma next_effects:
  assumes "activeContent s = Some c"
    and "currentStepIndex s + 1 < length (contentDescription (mode_of (worksheetMeta p)) c)"
  shows "snd (handleNextStep p s) =
     AudioPause #
     (if audioAvailable s then [AudioPlayAfterDelay (audioSrc p c (currentStepIndex s + 1))] else [])"
  using assms by (simp add: handleNextStep_def Let_def)

lemma message_effects:
  assumes "activeContent s = Some c" and "audioAvailable s"
  shows "snd (handleMessageClick p k s) = [AudioPause, AudioPlay (audioSrc p c k)]"
  using assms by (simp add: handleMessageClick_def)

lemma viewer_audio_paths:
  "(worksheetMeta p = AutoMeta pages \<and>
    find (\<lambda>page. page_number page = pageIndex p) pages = Some pageData \<and>
    i < length (page_guidance pageData) \<longrightarrow>
      audioSrc p (currentPageContent (worksheetMeta p) (pageIndex p) ! i) k =
        ''/audio/'' @ worksheetId p @ ''/'' @ decimal (pageIndex p) @ ''_'' @ decimal i @
        ''_'' @ decimal (k + 1) @ ''.mp3'') \<and>
   (mode_of (worksheetMeta p) = Regions \<longrightarrow>
      audioSrc p (Region r) k =
        ''/audio/'' @ worksheetId p @ ''/'' @ region_name r @ ''_'' @ decimal (k + 1) @ ''.mp3'') \<and>
   (audioAvailable s \<and> contentDescription (mode_of (worksheetMeta p)) c \<noteq> [] \<longrightarrow>
      filter startsMedia (snd (handleContentClick p c s)) =
        (if videoRendered s then [VideoRestartAndPlay] else []) @
        [AudioPlayAfterDelay (audioSrc p c (savedStepIndex p c))]) \<and>
   (audioAvailable s \<and> activeContent s = Some c \<and>
    currentStepIndex s + 1 < length (contentDescription (mode_of (worksheetMeta p)) c) \<longrightarrow>
      snd (handleNextStep p s) =
        [AudioPause, AudioPlayAfterDelay (audioSrc p c (currentStepIndex s + 1))]) \<and>
   (audioAvailable s \<and> activeContent s = Some c \<longrightarrow>
      snd (handleMessageClick p k s) = [AudioPause, AudioPlay (audioSrc p c k)])"
proof (intro conjI impI)
  assume a: "worksheetMeta p = AutoMeta pages \<and>
    find (\<lambda>page. page_number page = pageIndex p) pages = Some pageData \<and>
    i < length (page_guidance pageData)"
  then have "currentPageContent (worksheetMeta p) (pageIndex p) ! i =
     Guidance \<lparr>guidance_title = item_title (page_guidance pageData ! i),
               guidance_description = item_description (page_guidance pageData ! i),
               guidance_id = ''guidance_'' @ decimal i, guidance_index = i\<rparr>"
    using auto_content_nth [of "pageIndex p" pages pageData i] by simp
  with a show "audioSrc p (currentPageContent (worksheetMeta p) (pageIndex p) ! i) k =
        ''/audio/'' @ worksheetId p @ ''/'' @ decimal (pageIndex p) @ ''_'' @ decimal i @
        ''_'' @ decimal (k + 1) @ ''.mp3''"
    by (simp add: audioSrc_def playAudioSegment_def)
next
  assume "mode_of (worksheetMeta p) = Regions"
  then show "audioSrc p (Region r) k =
        ''/audio/'' @ worksheetId p @ ''/'' @ region_name r @ ''_'' @ decimal (k + 1) @ ''.mp3''"
    by (simp add: audioSrc_def playAudioSegment_def)
next
  assume "audioAvailable s \<and> contentDescription (mode_of (worksheetMeta p)) c \<noteq> []"
  then show "filter startsMedia (snd (handleContentClick p c s)) =
        (if videoRendered s then [VideoRestartAndPlay] else []) @
        [AudioPlayAfterDelay (audioSrc p c (savedStepIndex p c))]"
    by (simp add: click_selects)
next
  assume "audioAvailable s \<and> activeContent s = Some c \<and>
    currentStepIndex s + 1 < length (contentDescription (mode_of (worksheetMeta p)) c)"
  then show "snd (handleNextStep p s) =
        [AudioPause, AudioPlayAfterDelay (audioSrc p c (currentStepIndex s + 1))]"
    using next_effects [of s c p] by simp
next
  assume "audioAvailable s \<and> activeContent s = Some c"
  then show "snd (handleMessageClick p k s) = [AudioPause, AudioPlay (audioSrc p c k)]"
    using message_effects [of s c p k] by simp
qed

lemma display_click_audio:
  assumes "isClickableTitle item" and "ds_audioAvailable s"
  shows "DisplayAudioPlayAfterDelay
           (''/audio/'' @ dp_worksheetId p @ ''/'' @ decimal (dp_pageNumber p) @ ''_'' @
            decimal (index + 1) @ ''_'' @ decimal 1 @ ''.mp3'')
         \<in> set (snd (displayGuidanceClick p item index s))"
proof -
  have "nat (int index + 1) = index + 1" by simp
  with assms show ?thesis
    by (simp add: displayGuidanceClick_def displayPlayAudioSegment_def)
qed

text \<open>
  C1. The claim is right about the asset convention and WorksheetViewer misses it by one
  in the guidance index. For the guidance item at position 1 of page 1 of worksheet w:
  WorksheetViewer's select asks for /audio/w/1_1_1.mp3, its advance for /audio/w/1_1_2.mp3
  and its paragraph replay of step 0 for /audio/w/1_1_1.mp3, where the claim gives
  /audio/w/1_2_1.mp3, /audio/w/1_2_2.mp3 and /audio/w/1_2_1.mp3; its probe asks for
  /audio/w/1_0_1.mp3. AutoModeContentDisplay, for the same item, asks for the paths of the
  claim, and its probe for /audio/w/1_1_1.mp3. In regions mode WorksheetViewer asks for
  /audio/w/intro_1.mp3, as the claim says.
\<close>

theorem viewer_guidance_index_off_by_one:
  "currentPageContent sample_auto_meta 1 ! 1 = Guidance sample_guidance \<and>
   filter startsMedia
     (snd (handleGuidanceClick (sample_props sample_auto_meta) sample_guidance
        (initial_state ''w'' 1))) = [AudioPlayAfterDelay ''/audio/w/1_1_1.mp3''] \<and>
   snd (handleNextStep (sample_props sample_auto_meta)
     (fst (handleGuidanceClick (sample_props sample_auto_meta) sample_guidance
        (initial_state ''w'' 1)))) = [AudioPause, AudioPlayAfterDelay ''/audio/w/1_1_2.mp3''] \<and>
   snd (handleMessageClick (sample_props sample_auto_meta) 0
     (fst (handleGuidanceClick (sample_props sample_auto_meta) sample_guidance
        (initial_state ''w'' 1)))) = [AudioPause, AudioPlay ''/audio/w/1_1_1.mp3''] \<and>
   snd (audioAvailabilityCheck (sample_props sample_auto_meta) (initial_state ''w'' 1)) =
     Some ''/audio/w/1_0_1.mp3'' \<and>
   dp_guidance (sample_display_pages ! 0) ! 1 = sample_display_item \<and>
   filter (\<lambda>e. e \<noteq> DisplayOnTextModeChange True \<and>
                e \<noteq> DisplayOnRegionStateChange ''guidance_1'' ''Steps'' 0)
     (snd (displayGuidanceClick (sample_display_props 1) sample_display_item 1 display_initial)) =
     [DisplayAudioPlayAfterDelay ''/audio/w/1_2_1.mp3''] \<and>
   snd (displayNextStep (sample_display_props 1)
     (fst (displayGuidanceClick (sample_display_props 1) sample_display_item 1 display_initial))) =
     [DisplayAudioPause, DisplayAudioPlayAfterDelay ''/audio/w/1_2_2.mp3''] \<and>
   snd (displayMessageClick (sample_display_props 1) 0
     (fst (displayGuidanceClick (sample_display_props 1) sample_display_item 1 display_initial))) =
     [DisplayAudioPause, DisplayAudioPlay ''/audio/w/1_2_1.mp3''] \<and>
   displayAvailabilityCheck (sample_display_props 1) display_initial =
     Some ''/audio/w/1_1_1.mp3'' \<and>
   filter startsMedia
     (snd (handleRegionClick (sample_props sample_regions_meta) sample_region
        (initial_state ''w'' 1))) = [AudioPlayAfterDelay ''/audio/w/intro_1.mp3'']"
  by code_simp

subsection \<open>Which units are inert\<close>

lemma split_on_nonempty: "split_on d s \<noteq> []"
  by (induction s) (auto split: list.split)

lemma split_on_subset: "l \<in> set (split_on d s) \<Longrightarrow> set l \<subseteq> set s"
proof (induction s arbitrary: l)
  case Nil
  then show ?case by simp
next
  case (Cons c cs)
  show ?case
  proof (cases "c = d")
    case True
    with Cons.prems have "l = [] \<or> l \<in> set (split_on d cs)" by simp
    with Cons.IH [of l] show ?thesis by auto
  next
    case False
    then obtain x xs where split: "split_on d cs = x # xs"
      using split_on_nonempty [of d cs] by (cases "split_on d cs") auto
    have head: "set x \<subseteq> set cs"
      using Cons.IH [of x] split by simp
    have others: "set l \<subseteq> set cs" if "l \<in> set xs"
      using Cons.IH [of l] split that by simp
    from False split Cons.prems have "l = c # x \<or> l \<in> set xs" by simp
    with head others show ?thesis by auto
  qed
qed

lemma trim_empty_iff: "trim s = [] \<longleftrightarrow> (\<forall>c \<in> set s. is_whitespace c)"
proof
  assume "trim s = []"
  then have all: "\<forall>c \<in> set (dropWhile is_whitespace s). is_whitespace c"
    by (simp add: trim_def dropWhile_eq_Nil_conv)
  have "dropWhile is_whitespace s = []"
  proof (rule ccontr)
    assume "dropWhile is_whitespace s \<noteq> []"
    then have "\<not> is_whitespace (hd (dropWhile is_whitespace s))"
      by (rule hd_dropWhile)
    moreover from \<open>dropWhile is_whitespace s \<noteq> []\<close>
    have "hd (dropWhile is_whitespace s) \<in> set (dropWhile is_whitespace s)"
      by simp
    ultimately show False using all by blast
  qed
  then show "\<forall>c \<in> set s. is_whitespace c"
    by (simp add: dropWhile_eq_Nil_conv)
next
  assume "\<forall>c \<in> set s. is_whitespace c"
  then show "trim s = []"
    by (auto simp: trim_def dest: set_dropWhileD)
qed

lemma trim_decomposition:
  "\<exists>a b. s = a @ trim s @ b \<and> (\<forall>c \<in> set a. is_whitespace c) \<and> (\<forall>c \<in> set b. is_whitespace c)"
proof -
  let ?u = "dropWhile is_whitespace s"
  have "rev ?u = takeWhile is_whitespace (rev ?u) @ dropWhile is_whitespace (rev ?u)"
    by simp
  then have "?u = rev (dropWhile is_whitespace (rev ?u)) @ rev (takeWhile is_whitespace (rev ?u))"
    by (metis rev_append rev_rev_ident)
  then have "s = takeWhile is_whitespace s @ trim s @ rev (takeWhile is_whitespace (rev ?u))"
    by (metis takeWhile_dropWhile_id trim_def)
  moreover have "\<forall>c \<in> set (takeWhile is_whitespace s). is_whitespace c"
    by (auto dest: set_takeWhileD)
  moreover have "\<forall>c \<in> set (rev (takeWhile is_whitespace (rev ?u))). is_whitespace c"
    by (auto dest: set_takeWhileD)
  ultimately show ?thesis by blast
qed

lemma trim_padded:
  assumes "\<forall>c \<in> set a. is_whitespace c" and "\<forall>c \<in> set b. is_whitespace c"
    and "t \<noteq> []" and "\<not> is_whitespace (hd t)" and "\<not> is_whitespace (last t)"
  shows "trim (a @ t @ b) = t"
proof -
  have "dropWhile is_whitespace (a @ t @ b) = dropWhile is_whitespace (t @ b)"
    by (rule dropWhile_append2) (use assms(1) in auto)
  also have "\<dots> = t @ b"
    using assms(3,4) by (cases t) simp_all
  finally have front: "dropWhile is_whitespace (a @ t @ b) = t @ b" .
  have "dropWhile is_whitespace (rev b @ rev t) = dropWhile is_whitespace (rev t)"
    by (rule dropWhile_append2) (use assms(2) in auto)
  also have "\<dots> = rev t"
  proof (cases "rev t")
    case Nil
    then show ?thesis by simp
  next
    case (Cons x xs)
    then have "t = rev xs @ [x]" by (simp add: rev_eq_Cons_iff)
    then have "last t = x" by simp
    with assms(5) Cons show ?thesis by simp
  qed
  finally have rear: "dropWhile is_whitespace (rev (t @ b)) = rev t"
    by simp
  show ?thesis
    by (simp only: trim_def front rear rev_rev_ident)
qed

lemma split_on_append:
  "split_on d (xs @ ys) =
     butlast (split_on d xs) @ [last (split_on d xs) @ hd (split_on d ys)] @ tl (split_on d ys)"
proof (induction xs)
  case Nil
  then show ?case using split_on_nonempty [of d ys] by (cases "split_on d ys") simp_all
next
  case (Cons c cs)
  show ?case
  proof (cases "c = d")
    case True
    with Cons show ?thesis using split_on_nonempty [of d cs] by simp
  next
    case False
    obtain x xs' where split: "split_on d cs = x # xs'"
      using split_on_nonempty [of d cs] by (cases "split_on d cs") auto
    show ?thesis
    proof (cases xs')
      case Nil
      with False split Cons show ?thesis by simp
    next
      case (Cons y ys')
      with False split Cons.IH show ?thesis by simp
    qed
  qed
qed

lemma split_on_absent: "d \<notin> set t \<Longrightarrow> split_on d t = [t]"
  by (induction t) auto


lemma lines_of_padded:
  assumes "\<forall>c \<in> set a. is_whitespace c" and "\<forall>c \<in> set b. is_whitespace c"
    and "d \<notin> set t" and "l \<in> set (split_on d (a @ t @ b))"
  shows "(\<forall>c \<in> set l. is_whitespace c) \<or>
         (\<exists>a' b'. l = a' @ t @ b' \<and> (\<forall>c \<in> set a'. is_whitespace c) \<and>
            (\<forall>c \<in> set b'. is_whitespace c))"
proof -
  have middle: "split_on d (t @ b) = (t @ hd (split_on d b)) # tl (split_on d b)"
    using assms(3) by (simp add: split_on_append [of d t b] split_on_absent)
  have whole: "split_on d (a @ t @ b) =
      butlast (split_on d a) @ [last (split_on d a) @ t @ hd (split_on d b)] @ tl (split_on d b)"
    by (simp add: split_on_append [of d a "t @ b"] middle)
  have in_a: "\<forall>c \<in> set x. is_whitespace c" if "x \<in> set (split_on d a)" for x
    using split_on_subset [OF that] assms(1) by auto
  have in_b: "\<forall>c \<in> set x. is_whitespace c" if "x \<in> set (split_on d b)" for x
    using split_on_subset [OF that] assms(2) by auto
  from assms(4) whole
  consider "l \<in> set (butlast (split_on d a))"
    | "l = last (split_on d a) @ t @ hd (split_on d b)"
    | "l \<in> set (tl (split_on d b))"
    by auto
  then show ?thesis
  proof cases
    case 1
    then have "l \<in> set (split_on d a)" by (rule in_set_butlastD)
    then show ?thesis using in_a by blast
  next
    case 2
    have "last (split_on d a) \<in> set (split_on d a)"
      using split_on_nonempty [of d a] by simp
    moreover have "hd (split_on d b) \<in> set (split_on d b)"
      using split_on_nonempty [of d b] by simp
    ultimately show ?thesis using 2 in_a in_b by blast
  next
    case 3
    then have "l \<in> set (split_on d b)"
      using split_on_nonempty [of d b] by (auto dest: list.set_sel(2))
    then show ?thesis using in_b by blast
  qed
qed

lemma trimmed_lines:
  assumes "trim s = t" and "CHR 0x0A \<notin> set t"
    and "t \<noteq> [] \<longrightarrow> \<not> is_whitespace (hd t) \<and> \<not> is_whitespace (last t)"
    and "l \<in> set (split_lines s)"
  shows "trim l = [] \<or> trim l = t"
proof -
  obtain a b where s: "s = a @ t @ b" and a: "\<forall>c \<in> set a. is_whitespace c"
    and b: "\<forall>c \<in> set b. is_whitespace c"
    using trim_decomposition [of s] assms(1) by auto
  from assms(4) s have "l \<in> set (split_on (CHR 0x0A) (a @ t @ b))"
    by (simp add: split_lines_def)
  from lines_of_padded [OF a b assms(2) this]
  show ?thesis
  proof
    assume "\<forall>c \<in> set l. is_whitespace c"
    then show ?thesis by (simp add: trim_empty_iff)
  next
    assume "\<exists>a' b'. l = a' @ t @ b' \<and> (\<forall>c \<in> set a'. is_whitespace c) \<and>
            (\<forall>c \<in> set b'. is_whitespace c)"
    then obtain a' b' where l: "l = a' @ t @ b'" and a': "\<forall>c \<in> set a'. is_whitespace c"
      and b': "\<forall>c \<in> set b'. is_whitespace c"
      by blast
    show ?thesis
    proof (cases "t = []")
      case True
      with l a' b' have "\<forall>c \<in> set l. is_whitespace c" by auto
      then show ?thesis by (simp add: trim_empty_iff)
    next
      case False
      with assms(3) have "\<not> is_whitespace (hd t)" and "\<not> is_whitespace (last t)"
        by simp_all
      from trim_padded [OF a' b' False this] l show ?thesis by simp
    qed
  qed
qed

lemma auto_viewer_nonclickable_no_paragraphs:
  assumes "isNonClickable item"
  shows "splitIntoParagraphs (item_description item) = []"
proof -
  let ?t = "trim (item_description item)"
  from assms have cases: "?t = [] \<or> ?t = ''<br>'' \<or> ?t = ''<br/>''"
    by (simp add: isNonClickable_def Let_def)
  then have no_newline: "CHR 0x0A \<notin> set ?t"
    by auto
  from cases have ends: "?t \<noteq> [] \<longrightarrow> \<not> is_whitespace (hd ?t) \<and> \<not> is_whitespace (last ?t)"
    by (auto simp: is_whitespace_def)
  have "trim l = [] \<or> trim l = ''<br>'' \<or> trim l = ''<br/>''"
    if "l \<in> set (split_lines (item_description item))" for l
    using trimmed_lines [OF refl no_newline ends that] cases by auto
  then show ?thesis
    by (auto simp: splitIntoParagraphs_def filter_empty_conv)
qed

lemma click_not_inert:
  "contentDescription (mode_of (worksheetMeta p)) c \<noteq> [] \<Longrightarrow> handleContentClick p c s \<noteq> (s, [])"
  by (simp add: click_selects)

lemma guidance_description_empty:
  "isNonClickableGuidance g \<Longrightarrow> contentDescription m (Guidance g) = []"
  by (cases m) (simp_all add: nonclickable_no_paragraphs)

lemma click_changes_idle:
  assumes "contentDescription (mode_of (worksheetMeta p)) c \<noteq> []"
  shows "fst (handleContentClick p c (initial_state [] 0)) \<noteq> initial_state [] 0"
proof
  assume "fst (handleContentClick p c (initial_state [] 0)) = initial_state [] 0"
  then have "activeContent (fst (handleContentClick p c (initial_state [] 0))) =
      activeContent (initial_state [] 0)"
    by simp
  with assms show False
    by (simp add: click_selects initial_state_def)
qed

lemma auto_viewer_click_selects:
  assumes "splitIntoParagraphs (item_description item) \<noteq> []"
  shows "autoViewerGuidanceClick item a =
     (a\<lparr>av_activeGuidance := Some item, av_currentParagraphIndex := 0,
        av_displayedParagraphs := [hd (splitIntoParagraphs (item_description item))],
        av_isTextMode := True\<rparr>,
      [OnTextModeChange True])"
  using assms auto_viewer_nonclickable_no_paragraphs [of item]
  by (auto simp: autoViewerGuidanceClick_def Let_def)

lemma auto_viewer_click_inert:
  assumes "splitIntoParagraphs (item_description item) = []"
  shows "autoViewerGuidanceClick item a = (a, [])"
  using assms by (simp add: autoViewerGuidanceClick_def Let_def)

text \<open>
  C2, as the code has it. In WorksheetViewer, in regions mode and in auto mode alike, a
  unit is inert (a click on it returns every state as it is) exactly when its derived
  paragraph sequence is empty; then the click does nothing else either. A click on a unit
  whose sequence is not empty gives the state in which that unit is active, the step is
  the saved one, the displayed paragraphs are the prefix through that step and text mode
  is on, whether or not its paragraphs are placeholders. A non-clickable guidance item is
  one whose derived sequence is empty. The same holds in AutoModeViewer with its own split
  and its own clickability test: inert exactly when its derived sequence is empty, and
  otherwise the item becomes the active one with its first paragraph displayed.
\<close>

theorem inert_iff_no_paragraphs:
  "((\<forall>s'. fst (viewerStep p (ClickRegion r) s') = s') \<longleftrightarrow>
      contentDescription (mode_of (worksheetMeta p)) (Region r) = []) \<and>
   ((\<forall>s'. fst (viewerStep p (ClickGuidance g) s') = s') \<longleftrightarrow>
      contentDescription (mode_of (worksheetMeta p)) (Guidance g) = []) \<and>
   (contentDescription (mode_of (worksheetMeta p)) (Region r) = [] \<longrightarrow>
      viewerStep p (ClickRegion r) s = (s, [])) \<and>
   (contentDescription (mode_of (worksheetMeta p)) (Guidance g) = [] \<longrightarrow>
      viewerStep p (ClickGuidance g) s = (s, [])) \<and>
   (contentDescription (mode_of (worksheetMeta p)) (Region r) \<noteq> [] \<longrightarrow>
      fst (viewerStep p (ClickRegion r) s) =
        s\<lparr>currentStepIndex := savedStepIndex p (Region r),
          displayedMessages :=
            take (savedStepIndex p (Region r) + 1)
              (contentDescription (mode_of (worksheetMeta p)) (Region r)),
          activeContent := Some (Region r),
          isTextMode := True,
          isGuidanceTextMode := (mode_of (worksheetMeta p) = Auto \<or> isGuidanceTextMode s)\<rparr>) \<and>
   (contentDescription (mode_of (worksheetMeta p)) (Guidance g) \<noteq> [] \<longrightarrow>
      fst (viewerStep p (ClickGuidance g) s) =
        s\<lparr>currentStepIndex := savedStepIndex p (Guidance g),
          displayedMessages :=
            take (savedStepIndex p (Guidance g) + 1)
              (contentDescription (mode_of (worksheetMeta p)) (Guidance g)),
          activeContent := Some (Guidance g),
          isTextMode := True,
          isGuidanceTextMode := (mode_of (worksheetMeta p) = Auto \<or> isGuidanceTextMode s)\<rparr>) \<and>
   (isNonClickableGuidance g \<longrightarrow> contentDescription (mode_of (worksheetMeta p)) (Guidance g) = []) \<and>
   ((\<forall>a'. fst (autoViewerGuidanceClick item a') = a') \<longleftrightarrow>
      splitIntoParagraphs (item_description item) = []) \<and>
   (splitIntoParagraphs (item_description item) = [] \<longrightarrow>
      autoViewerGuidanceClick item a = (a, [])) \<and>
   (splitIntoParagraphs (item_description item) \<noteq> [] \<longrightarrow>
      fst (autoViewerGuidanceClick item a) =
        a\<lparr>av_activeGuidance := Some item, av_currentParagraphIndex := 0,
          av_displayedParagraphs := [hd (splitIntoParagraphs (item_description item))],
          av_isTextMode := True\<rparr>) \<and>
   (isNonClickable item \<longrightarrow> splitIntoParagraphs (item_description item) = [])"
proof -
  have region_step: "handleRegionClick p r s' = handleContentClick p (Region r) s'" for s'
    by (simp add: handleRegionClick_def)
  have guidance_step: "handleGuidanceClick p g s' = handleContentClick p (Guidance g) s'"
    if "contentDescription (mode_of (worksheetMeta p)) (Guidance g) \<noteq> []" for s'
    using that guidance_description_empty [of g "mode_of (worksheetMeta p)"]
    by (auto simp: handleGuidanceClick_def)
  have guidance_inert: "handleGuidanceClick p g s' = (s', [])"
    if "contentDescription (mode_of (worksheetMeta p)) (Guidance g) = []" for s'
    using that by (simp add: handleGuidanceClick_def click_inert)
  have c1: "(\<forall>s'. fst (viewerStep p (ClickRegion r) s') = s') \<longleftrightarrow>
      contentDescription (mode_of (worksheetMeta p)) (Region r) = []"
  proof
    assume all: "\<forall>s'. fst (viewerStep p (ClickRegion r) s') = s'"
    show "contentDescription (mode_of (worksheetMeta p)) (Region r) = []"
    proof (rule ccontr)
      assume "contentDescription (mode_of (worksheetMeta p)) (Region r) \<noteq> []"
      from click_changes_idle [OF this] all show False
        by (simp add: region_step)
    qed
  next
    assume "contentDescription (mode_of (worksheetMeta p)) (Region r) = []"
    then show "\<forall>s'. fst (viewerStep p (ClickRegion r) s') = s'"
      by (simp add: region_step click_inert)
  qed
  have c2: "(\<forall>s'. fst (viewerStep p (ClickGuidance g) s') = s') \<longleftrightarrow>
      contentDescription (mode_of (worksheetMeta p)) (Guidance g) = []"
  proof
    assume all: "\<forall>s'. fst (viewerStep p (ClickGuidance g) s') = s'"
    show "contentDescription (mode_of (worksheetMeta p)) (Guidance g) = []"
    proof (rule ccontr)
      assume d: "contentDescription (mode_of (worksheetMeta p)) (Guidance g) \<noteq> []"
      from click_changes_idle [OF d] all show False
        by (simp add: guidance_step [OF d])
    qed
  next
    assume "contentDescription (mode_of (worksheetMeta p)) (Guidance g) = []"
    then show "\<forall>s'. fst (viewerStep p (ClickGuidance g) s') = s'"
      by (simp add: guidance_inert)
  qed
  have c3: "contentDescription (mode_of (worksheetMeta p)) (Region r) = [] \<longrightarrow>
      viewerStep p (ClickRegion r) s = (s, [])"
    by (simp add: region_step click_inert)
  have c4: "contentDescription (mode_of (worksheetMeta p)) (Guidance g) = [] \<longrightarrow>
      viewerStep p (ClickGuidance g) s = (s, [])"
    by (simp add: guidance_inert)
  have c5: "contentDescription (mode_of (worksheetMeta p)) (Region r) \<noteq> [] \<longrightarrow>
      fst (viewerStep p (ClickRegion r) s) =
        s\<lparr>currentStepIndex := savedStepIndex p (Region r),
          displayedMessages :=
            take (savedStepIndex p (Region r) + 1)
              (contentDescription (mode_of (worksheetMeta p)) (Region r)),
          activeContent := Some (Region r),
          isTextMode := True,
          isGuidanceTextMode := (mode_of (worksheetMeta p) = Auto \<or> isGuidanceTextMode s)\<rparr>"
    by (simp add: region_step click_selects)
  have c6: "contentDescription (mode_of (worksheetMeta p)) (Guidance g) \<noteq> [] \<longrightarrow>
      fst (viewerStep p (ClickGuidance g) s) =
        s\<lparr>currentStepIndex := savedStepIndex p (Guidance g),
          displayedMessages :=
            take (savedStepIndex p (Guidance g) + 1)
              (contentDescription (mode_of (worksheetMeta p)) (Guidance g)),
          activeContent := Some (Guidance g),
          isTextMode := True,
          isGuidanceTextMode := (mode_of (worksheetMeta p) = Auto \<or> isGuidanceTextMode s)\<rparr>"
    by (simp add: guidance_step click_selects)
  have c7: "isNonClickableGuidance g \<longrightarrow>
      contentDescription (mode_of (worksheetMeta p)) (Guidance g) = []"
    by (simp add: guidance_description_empty)
  have c8: "(\<forall>a'. fst (autoViewerGuidanceClick item a') = a') \<longleftrightarrow>
      splitIntoParagraphs (item_description item) = []"
  proof
    assume all: "\<forall>a'. fst (autoViewerGuidanceClick item a') = a'"
    show "splitIntoParagraphs (item_description item) = []"
    proof (rule ccontr)
      assume d: "splitIntoParagraphs (item_description item) \<noteq> []"
      let ?idle = "\<lparr>av_isTextMode = False, av_activeGuidance = None,
        av_currentParagraphIndex = 0, av_displayedParagraphs = []\<rparr>"
      from all have "av_isTextMode (fst (autoViewerGuidanceClick item ?idle)) =
          av_isTextMode ?idle"
        by simp
      then show False
        by (simp add: auto_viewer_click_selects [OF d])
    qed
  next
    assume "splitIntoParagraphs (item_description item) = []"
    then show "\<forall>a'. fst (autoViewerGuidanceClick item a') = a'"
      by (simp add: auto_viewer_click_inert)
  qed
  have c9: "splitIntoParagraphs (item_description item) = [] \<longrightarrow>
      autoViewerGuidanceClick item a = (a, [])"
    by (simp add: auto_viewer_click_inert)
  have c10: "splitIntoParagraphs (item_description item) \<noteq> [] \<longrightarrow>
      fst (autoViewerGuidanceClick item a) =
        a\<lparr>av_activeGuidance := Some item, av_currentParagraphIndex := 0,
          av_displayedParagraphs := [hd (splitIntoParagraphs (item_description item))],
          av_isTextMode := True\<rparr>"
    by (simp add: auto_viewer_click_selects)
  have c11: "isNonClickable item \<longrightarrow> splitIntoParagraphs (item_description item) = []"
    by (simp add: auto_viewer_nonclickable_no_paragraphs)
  from c1 c2 c3 c4 c5 c6 c7 c8 c9 c10 c11 show ?thesis
    by (intro conjI)
qed

theorem inert_iff_no_paragraphs_witness:
  "isNonClickableGuidance sample_heading \<and>
   contentDescription (mode_of (worksheetMeta (sample_props sample_auto_meta)))
     (Guidance sample_heading) = [] \<and>
   viewerStep (sample_props sample_auto_meta) (ClickGuidance sample_heading)
     (initial_state ''w'' 1) = (initial_state ''w'' 1, []) \<and>
   fst (viewerStep (sample_props sample_regions_meta) (ClickRegion sample_gap_region)
     (initial_state ''w'' 1)) =
     (initial_state ''w'' 1)
       \<lparr>currentStepIndex := savedStepIndex (sample_props sample_regions_meta) (Region sample_gap_region),
        displayedMessages :=
          take (savedStepIndex (sample_props sample_regions_meta) (Region sample_gap_region) + 1)
            (contentDescription (mode_of (worksheetMeta (sample_props sample_regions_meta)))
               (Region sample_gap_region)),
        activeContent := Some (Region sample_gap_region),
        isTextMode := True,
        isGuidanceTextMode :=
          (mode_of (worksheetMeta (sample_props sample_regions_meta)) = Auto \<or>
           isGuidanceTextMode (initial_state ''w'' 1))\<rparr> \<and>
   contentDescription (mode_of (worksheetMeta (sample_props sample_regions_meta)))
     (Region sample_gap_region) = [''<br>'']"
proof -
  have heading: "isNonClickableGuidance sample_heading"
    by code_simp
  have gap: "contentDescription (mode_of (worksheetMeta (sample_props sample_regions_meta)))
     (Region sample_gap_region) = [''<br>'']"
    by code_simp
  then have gap_not_empty:
    "contentDescription (mode_of (worksheetMeta (sample_props sample_regions_meta)))
       (Region sample_gap_region) \<noteq> []"
    by simp
  note heading_case = inert_iff_no_paragraphs [of "sample_props sample_auto_meta" sample_region
      sample_heading "initial_state ''w'' 1"]
  note gap_case = inert_iff_no_paragraphs [of "sample_props sample_regions_meta"
      sample_gap_region sample_heading "initial_state ''w'' 1"]
  from heading heading_case gap gap_not_empty gap_case show ?thesis by blast
qed

text \<open>
  C2 as stated fails. The region whose only paragraph is the placeholder has a derived
  sequence made solely of placeholders, and so has the guidance item whose description is
  two placeholder lines and which passes the clickability test; selecting either makes it
  the active unit.
\<close>

theorem placeholder_units_counterexample:
  "currentPageContent sample_regions_meta 1 ! 1 = Region sample_gap_region \<and>
   spec_non_clickable (contentDescription Regions (Region sample_gap_region)) \<and>
   activeContent (fst (viewerStep (sample_props sample_regions_meta)
     (ClickRegion sample_gap_region) (initial_state ''w'' 1))) = Some (Region sample_gap_region) \<and>
   displayedMessages (fst (viewerStep (sample_props sample_regions_meta)
     (ClickRegion sample_gap_region) (initial_state ''w'' 1))) = [''<br>''] \<and>
   activeContent (initial_state ''w'' 1) = None \<and>
   \<not> isNonClickableGuidance sample_breaks \<and>
   spec_non_clickable (contentDescription Auto (Guidance sample_breaks)) \<and>
   activeContent (fst (viewerStep (sample_props sample_auto_meta)
     (ClickGuidance sample_breaks) (initial_state ''w'' 1))) = Some (Guidance sample_breaks)"
  by code_simp


subsection \<open>The playback invariant\<close>

lemma playback_invariant_iff:
  "playback_invariant m s \<longleftrightarrow>
     (activeContent s = None \<longrightarrow> currentStepIndex s = 0 \<and> displayedMessages s = []) \<and>
     (\<forall>c. activeContent s = Some c \<longrightarrow> m = Regions \<or> isGuidanceTextMode s \<longrightarrow>
        displayedMessages s = take (currentStepIndex s + 1) (contentDescription m c) \<and>
        currentStepIndex s < length (contentDescription m c))"
  by (simp add: playback_invariant_def split: option.split)

lemma click_invariant:
  assumes "playback_invariant m s" and "mode_of (worksheetMeta p) = m" and "saved_in_range p c"
  shows "playback_invariant m (fst (handleContentClick p c s))"
proof (cases "contentDescription m c = []")
  case True
  with assms show ?thesis by (simp add: click_inert)
next
  case False
  with assms(2,3) have "savedStepIndex p c < length (contentDescription m c)"
    by (simp add: saved_in_range_def)
  with False assms(2) show ?thesis
    by (cases m) (simp_all add: click_selects playback_invariant_iff)
qed

lemma next_invariant:
  assumes "playback_invariant m s" and "mode_of (worksheetMeta p) = m"
  shows "playback_invariant m (fst (handleNextStep p s))"
proof (cases "activeContent s")
  case None
  with assms show ?thesis by (simp add: handleNextStep_def)
next
  case (Some c)
  show ?thesis
  proof (cases "currentStepIndex s + 1 < length (contentDescription m c)")
    case False
    with Some assms show ?thesis by (simp add: handleNextStep_def)
  next
    case True
    then have "take (Suc (Suc (currentStepIndex s))) (contentDescription m c) =
        take (Suc (currentStepIndex s)) (contentDescription m c) @
        [contentDescription m c ! Suc (currentStepIndex s)]"
      by (simp add: take_Suc_conv_app_nth)
    with True Some assms show ?thesis
      by (cases m) (simp_all add: handleNextStep_def Let_def playback_invariant_iff)
  qed
qed

lemma back_invariant:
  assumes "playback_invariant m s" and "mode_of (worksheetMeta p) = m"
  shows "playback_invariant m (fst (handleBackButtonClick p s))"
  using assms
  by (cases m) (simp_all add: handleBackButtonClick_def playback_invariant_iff)

lemma message_invariant:
  assumes "playback_invariant m s"
  shows "playback_invariant m (fst (handleMessageClick p i s))"
proof -
  have "fst (handleMessageClick p i s) = s"
    by (simp add: handleMessageClick_def split: option.split)
  with assms show ?thesis by simp
qed

lemma reset_invariant:
  assumes "playback_invariant m s"
  shows "playback_invariant m (fst (resetOnChange p s))"
proof (cases "prevWorksheetId s \<noteq> worksheetId p \<or> prevPageIndex s \<noteq> pageIndex p")
  case True
  then show ?thesis by (simp add: resetOnChange_def Let_def playback_invariant_iff)
next
  case False
  then have "resetOnChange p s = (s, [])" by (simp add: resetOnChange_def)
  with assms show ?thesis by simp
qed

lemma restore_invariant:
  assumes "playback_invariant m s" and "mode_of (worksheetMeta p) = m" and "restore_in_range p"
  shows "playback_invariant m (fst (restoreInitialState p s))"
proof (cases "initialActiveContent p")
  case None
  with assms(1) show ?thesis by (simp add: restoreInitialState_def)
next
  case (Some contentId)
  note handed = this
  show ?thesis
  proof (cases "currentPageContent (worksheetMeta p) (pageIndex p) \<noteq> [] \<and>
      \<not> hasRestoredInitialState s")
    case False
    with handed have "restoreInitialState p s = (s, [])"
      by (auto simp: restoreInitialState_def)
    with assms(1) show ?thesis by simp
  next
    case True
    note guard = this
    show ?thesis
    proof (cases "find (\<lambda>c. content_id c = contentId)
        (currentPageContent (worksheetMeta p) (pageIndex p))")
      case None
      with handed have "restoreInitialState p s = (s, [])"
        by (simp add: restoreInitialState_def)
      with assms(1) show ?thesis by simp
    next
      case (Some c)
      with handed assms(2,3)
      have range: "initialCurrentStepIndex p < length (contentDescription m c)"
        by (simp add: restore_in_range_def)
      then have "contentDescription m c \<noteq> []" by auto
      with range Some handed guard assms(2) show ?thesis
        by (cases m) (simp_all add: restoreInitialState_def Let_def playback_invariant_iff)
    qed
  qed
qed

lemma invariant_cong:
  assumes "activeContent s' = activeContent s" and "currentStepIndex s' = currentStepIndex s"
    and "displayedMessages s' = displayedMessages s"
    and "isGuidanceTextMode s' = isGuidanceTextMode s"
  shows "playback_invariant m s' = playback_invariant m s"
  using assms by (simp add: playback_invariant_iff)

lemma check_invariant:
  "playback_invariant m s \<Longrightarrow> playback_invariant m (fst (audioAvailabilityCheck p s))"
  by (subst invariant_cong [of _ s])
    (simp_all add: audioAvailabilityCheck_def split: mode.split content.split)

lemma probe_invariant:
  "playback_invariant m s \<Longrightarrow> playback_invariant m (snd (completeCheck b (False, s)))"
  by (subst invariant_cong [of _ s]) (simp_all add: completeCheck_def)

lemma step_invariant:
  assumes "playback_invariant m s" and "mode_of (worksheetMeta p) = m" and "event_in_range p e"
  shows "playback_invariant m (fst (viewerStep p e s))"
proof (cases e)
  case (ClickRegion r)
  with assms show ?thesis by (simp add: handleRegionClick_def click_invariant)
next
  case (ClickGuidance g)
  with assms show ?thesis by (simp add: handleGuidanceClick_def click_invariant)
next
  case NextStep
  with assms show ?thesis by (simp add: next_invariant)
next
  case BackButton
  with assms show ?thesis by (simp add: back_invariant)
next
  case (MessageClick i)
  with assms show ?thesis by (simp add: message_invariant)
next
  case Rendered
  with assms show ?thesis
    by (simp add: commit_fst check_invariant restore_invariant reset_invariant)
next
  case (ProbeSettled b)
  with assms show ?thesis by (simp add: probe_invariant)
qed

lemma run_invariant:
  "playback_invariant m s \<Longrightarrow> well_formed_run m evs \<Longrightarrow> playback_invariant m (run evs s)"
proof (induction evs arbitrary: s)
  case Nil
  then show ?case by simp
next
  case (Cons pe evs)
  obtain p e where pe: "pe = (p, e)" by (cases pe)
  from Cons.prems(2) pe have ok: "mode_of (worksheetMeta p) = m" "event_in_range p e"
    and rest: "well_formed_run m evs"
    by (simp_all add: well_formed_run_def)
  have "playback_invariant m (fst (viewerStep p e s))"
    using step_invariant [OF Cons.prems(1) ok] .
  from Cons.IH [OF this rest] pe show ?case by simp
qed

lemma invariant_in_spec_words:
  assumes "playback_invariant m s"
    and "m = Regions \<or> isGuidanceTextMode s \<or> activeContent s = None"
  shows "spec_invariant m s"
proof (cases "activeContent s")
  case None
  with assms(1) show ?thesis
    by (simp add: playback_invariant_iff spec_invariant_def)
next
  case (Some c)
  with assms have "displayedMessages s = take (currentStepIndex s + 1) (contentDescription m c)"
    and "currentStepIndex s < length (contentDescription m c)"
    by (auto simp: playback_invariant_iff)
  with Some show ?thesis
    by (simp add: spec_invariant_def)
qed

text \<open>
  C3, as the code has it. Take any run of select, advance, back, paragraph replay, render
  (navigation reset, restoration) and probe events from the initial state, in one mode,
  where every saved or handed-over step lies within its unit's paragraphs. In the state it
  reaches: with no unit active the step is 0 and nothing is displayed; with a unit active
  in regions mode, or in auto mode with the guidance detail mode on, the displayed
  paragraphs are exactly the prefix of the unit's paragraphs of length step + 1. A full
  exit leaves no unit active, step 0 and nothing displayed. The auto-mode detail-to-list
  collapse keeps the unit active and the step as they are and clears the displayed
  paragraphs.
\<close>

theorem playback_invariant_reachable:
  "(well_formed_run m evs \<longrightarrow>
      playback_invariant m (run evs (initial_state wid page)) \<and>
      (m = Regions \<or> isGuidanceTextMode (run evs (initial_state wid page)) \<or>
       activeContent (run evs (initial_state wid page)) = None \<longrightarrow>
         spec_invariant m (run evs (initial_state wid page)))) \<and>
   (mode_of (worksheetMeta p) = Auto \<and> isGuidanceTextMode s \<longrightarrow>
      activeContent (fst (handleBackButtonClick p s)) = activeContent s \<and>
      currentStepIndex (fst (handleBackButtonClick p s)) = currentStepIndex s \<and>
      displayedMessages (fst (handleBackButtonClick p s)) = [] \<and>
      \<not> isGuidanceTextMode (fst (handleBackButtonClick p s))) \<and>
   (mode_of (worksheetMeta p) = Regions \<or> \<not> isGuidanceTextMode s \<longrightarrow>
      spec_invariant m (fst (handleBackButtonClick p s)))"
proof (intro conjI impI)
  assume run: "well_formed_run m evs"
  have "playback_invariant m (initial_state wid page)"
    by (simp add: playback_invariant_def initial_state_def)
  with run show reached: "playback_invariant m (run evs (initial_state wid page))"
    by (simp add: run_invariant)
  show "spec_invariant m (run evs (initial_state wid page))"
    if "m = Regions \<or> isGuidanceTextMode (run evs (initial_state wid page)) \<or>
       activeContent (run evs (initial_state wid page)) = None"
    using reached that by (rule invariant_in_spec_words)
next
  assume a: "mode_of (worksheetMeta p) = Auto \<and> isGuidanceTextMode s"
  then show "activeContent (fst (handleBackButtonClick p s)) = activeContent s"
    and "currentStepIndex (fst (handleBackButtonClick p s)) = currentStepIndex s"
    and "displayedMessages (fst (handleBackButtonClick p s)) = []"
    and "\<not> isGuidanceTextMode (fst (handleBackButtonClick p s))"
    by (simp_all add: handleBackButtonClick_def)
next
  assume "mode_of (worksheetMeta p) = Regions \<or> \<not> isGuidanceTextMode s"
  then show "spec_invariant m (fst (handleBackButtonClick p s))"
    by (auto simp: handleBackButtonClick_def spec_invariant_def)
qed

theorem playback_invariant_reachable_witness:
  "well_formed_run Auto sample_collapse_run \<and>
   playback_invariant Auto (run sample_collapse_run (initial_state ''w'' 1)) \<and>
   well_formed_run Regions
     [(sample_props sample_regions_meta, ClickRegion sample_region),
      (sample_props sample_regions_meta, NextStep)] \<and>
   spec_invariant Regions
     (run [(sample_props sample_regions_meta, ClickRegion sample_region),
           (sample_props sample_regions_meta, NextStep)] (initial_state ''w'' 1)) \<and>
   displayedMessages
     (run [(sample_props sample_regions_meta, ClickRegion sample_region),
           (sample_props sample_regions_meta, NextStep)] (initial_state ''w'' 1)) =
     [''First'', ''Second''] \<and>
   displayedMessages (fst (handleBackButtonClick (sample_props sample_auto_meta)
     (run (take 2 sample_collapse_run) (initial_state ''w'' 1)))) = [] \<and>
   currentStepIndex (fst (handleBackButtonClick (sample_props sample_auto_meta)
     (run (take 2 sample_collapse_run) (initial_state ''w'' 1)))) = 1"
proof -
  have auto_run: "well_formed_run Auto sample_collapse_run"
    by code_simp
  have regions_run: "well_formed_run Regions
     [(sample_props sample_regions_meta, ClickRegion sample_region),
      (sample_props sample_regions_meta, NextStep)]"
    by code_simp
  have detail: "mode_of (worksheetMeta (sample_props sample_auto_meta)) = Auto \<and>
      isGuidanceTextMode (run (take 2 sample_collapse_run) (initial_state ''w'' 1))"
    by code_simp
  have step: "currentStepIndex (run (take 2 sample_collapse_run) (initial_state ''w'' 1)) = 1"
    by code_simp
  have shown: "displayedMessages
     (run [(sample_props sample_regions_meta, ClickRegion sample_region),
           (sample_props sample_regions_meta, NextStep)] (initial_state ''w'' 1)) =
     [''First'', ''Second'']"
    by code_simp
  note auto_case = playback_invariant_reachable [of Auto sample_collapse_run "''w''" 1
      "sample_props sample_auto_meta" "run (take 2 sample_collapse_run) (initial_state ''w'' 1)"]
  note regions_case = playback_invariant_reachable [of Regions
      "[(sample_props sample_regions_meta, ClickRegion sample_region),
        (sample_props sample_regions_meta, NextStep)]" "''w''" 1
      "sample_props sample_auto_meta" "run (take 2 sample_collapse_run) (initial_state ''w'' 1)"]
  have a: "playback_invariant Auto (run sample_collapse_run (initial_state ''w'' 1))"
    using auto_case auto_run by blast
  have b: "spec_invariant Regions
     (run [(sample_props sample_regions_meta, ClickRegion sample_region),
           (sample_props sample_regions_meta, NextStep)] (initial_state ''w'' 1))"
    using regions_case regions_run by blast
  have c: "displayedMessages (fst (handleBackButtonClick (sample_props sample_auto_meta)
       (run (take 2 sample_collapse_run) (initial_state ''w'' 1)))) = [] \<and>
     currentStepIndex (fst (handleBackButtonClick (sample_props sample_auto_meta)
       (run (take 2 sample_collapse_run) (initial_state ''w'' 1)))) =
     currentStepIndex (run (take 2 sample_collapse_run) (initial_state ''w'' 1))"
    using auto_case detail by blast
  from auto_run regions_run a b c shown step show ?thesis by simp
qed

text \<open>
  C3 as stated fails at the collapse: after select, advance and one back in auto mode the
  guidance item is still the active unit at step 1, and nothing is displayed.
\<close>

theorem collapse_breaks_invariant_counterexample:
  "activeContent (run sample_collapse_run (initial_state ''w'' 1)) = Some (Guidance sample_guidance) \<and>
   currentStepIndex (run sample_collapse_run (initial_state ''w'' 1)) = 1 \<and>
   displayedMessages (run sample_collapse_run (initial_state ''w'' 1)) = [] \<and>
   contentDescription Auto (Guidance sample_guidance) = [''One'', ''Two'', ''Three''] \<and>
   \<not> spec_invariant Auto (run sample_collapse_run (initial_state ''w'' 1))"
  by code_simp


subsection \<open>Exit and the session record\<close>

lemma full_exit_state:
  assumes "mode_of (worksheetMeta p) = Regions \<or> \<not> isGuidanceTextMode s"
  shows "activeContent (fst (handleBackButtonClick p s)) = None"
    and "currentStepIndex (fst (handleBackButtonClick p s)) = 0"
  using assms by (auto simp: handleBackButtonClick_def)

lemma active_notification_writes:
  assumes "wid \<noteq> []" and "n \<noteq> []" and "\<not> quota_exceeded st"
  shows "items (snd (handleContentStateChange wid n (Some c) k (pg, st))) (sessionKey wid n) =
     Some (Parsed \<lparr>lastActiveContentId = Some (stateContentId c),
                   content_of = pg_allContentState
                     (fst (handleContentStateChange wid n (Some c) k (pg, st)))\<rparr>)"
    and "pg_allContentState (fst (handleContentStateChange wid n (Some c) k (pg, st))) =
     (pg_allContentState pg)(stateContentId c \<mapsto> \<lparr>stored_currentStepIndex = k\<rparr>)"
    and "\<not> quota_exceeded (snd (handleContentStateChange wid n (Some c) k (pg, st)))"
  using assms
  by (simp_all add: handleContentStateChange_def Let_def writeItem_def setItem_def)

lemma idle_notification:
  assumes "wid \<noteq> []" and "n \<noteq> []" and "\<not> quota_exceeded st"
    and "items st (sessionKey wid n) = Some (Parsed d)"
    and "content_of d = pg_allContentState pg"
  shows "items (snd (handleContentStateChange wid n None k (pg, st))) =
     (items st)(sessionKey wid n \<mapsto>
        Parsed \<lparr>lastActiveContentId = None, content_of = content_of d\<rparr>)"
    and "pg_allContentState (fst (handleContentStateChange wid n None k (pg, st))) =
     pg_allContentState pg"
proof -
  show "pg_allContentState (fst (handleContentStateChange wid n None k (pg, st))) =
     pg_allContentState pg"
    using assms
    by (simp add: handleContentStateChange_def Let_def split: option.split stored_item.split)
  show "items (snd (handleContentStateChange wid n None k (pg, st))) =
     (items st)(sessionKey wid n \<mapsto>
        Parsed \<lparr>lastActiveContentId = None, content_of = content_of d\<rparr>)"
  proof (cases "lastActiveContentId d")
    case None
    then have "d = \<lparr>lastActiveContentId = None, content_of = content_of d\<rparr>"
      by simp
    then have "(items st)(sessionKey wid n \<mapsto>
        Parsed \<lparr>lastActiveContentId = None, content_of = content_of d\<rparr>) = items st"
      using assms(4) by (simp add: map_upd_triv)
    with None assms show ?thesis
      by (simp add: handleContentStateChange_def Let_def)
  next
    case (Some lastId)
    with assms show ?thesis
      by (simp add: handleContentStateChange_def Let_def writeItem_def setItem_def)
  qed
qed

text \<open>
  C8. When a full exit deactivates the unit and the viewer reports it, on a storage that
  accepts writes: if the page's session record is in place and holds the page's progress
  map, then afterwards the record under the page's key has lastActiveContentId null and the
  same progress map, the page's own progress map is the same, and no other key of the
  storage is touched. In particular, right after the report of an active unit c at step k,
  the exit's report leaves the record with lastActiveContentId null and the progress map
  that report wrote, c's step k included.
\<close>

theorem exit_clears_last_active_keeps_progress:
  assumes "wid \<noteq> []" and "n \<noteq> []" and "\<not> quota_exceeded st"
    and "mode_of (worksheetMeta p) = Regions \<or> \<not> isGuidanceTextMode s"
  shows "(items st (sessionKey wid n) = Some (Parsed d) \<and> content_of d = pg_allContentState pg \<longrightarrow>
           items (snd (notifyParent wid n (fst (handleBackButtonClick p s)) (pg, st)))
             (sessionKey wid n) =
             Some (Parsed \<lparr>lastActiveContentId = None, content_of = content_of d\<rparr>) \<and>
           pg_allContentState (fst (notifyParent wid n (fst (handleBackButtonClick p s)) (pg, st))) =
             pg_allContentState pg \<and>
           (\<forall>key. key \<noteq> sessionKey wid n \<longrightarrow>
              items (snd (notifyParent wid n (fst (handleBackButtonClick p s)) (pg, st))) key =
              items st key)) \<and>
         items (snd (notifyParent wid n (fst (handleBackButtonClick p s))
                  (handleContentStateChange wid n (Some c) k (pg, st)))) (sessionKey wid n) =
           Some (Parsed \<lparr>lastActiveContentId = None,
                         content_of = (pg_allContentState pg)(stateContentId c \<mapsto>
                                         \<lparr>stored_currentStepIndex = k\<rparr>)\<rparr>) \<and>
         pg_allContentState (fst (notifyParent wid n (fst (handleBackButtonClick p s))
                  (handleContentStateChange wid n (Some c) k (pg, st)))) =
           (pg_allContentState pg)(stateContentId c \<mapsto> \<lparr>stored_currentStepIndex = k\<rparr>)"
proof -
  have report: "notifyParent wid n (fst (handleBackButtonClick p s)) =
      handleContentStateChange wid n None 0"
    using full_exit_state [OF assms(4)] by (simp add: notifyParent_def fun_eq_iff)
  have general: "items (snd (handleContentStateChange wid n None 0 (pg', st')))
             (sessionKey wid n) =
             Some (Parsed \<lparr>lastActiveContentId = None, content_of = content_of d'\<rparr>) \<and>
           pg_allContentState (fst (handleContentStateChange wid n None 0 (pg', st'))) =
             pg_allContentState pg' \<and>
           (\<forall>key. key \<noteq> sessionKey wid n \<longrightarrow>
              items (snd (handleContentStateChange wid n None 0 (pg', st'))) key = items st' key)"
    if "\<not> quota_exceeded st'" and "items st' (sessionKey wid n) = Some (Parsed d')"
      and "content_of d' = pg_allContentState pg'" for pg' st' d'
    using idle_notification [OF assms(1,2) that, of 0] by simp
  obtain pg1 st1 where reported: "handleContentStateChange wid n (Some c) k (pg, st) = (pg1, st1)"
    by (cases "handleContentStateChange wid n (Some c) k (pg, st)")
  have written: "items st1 (sessionKey wid n) =
      Some (Parsed \<lparr>lastActiveContentId = Some (stateContentId c),
                    content_of = pg_allContentState pg1\<rparr>)"
    and progress: "pg_allContentState pg1 =
      (pg_allContentState pg)(stateContentId c \<mapsto> \<lparr>stored_currentStepIndex = k\<rparr>)"
    and writable: "\<not> quota_exceeded st1"
    using active_notification_writes [OF assms(1,2,3), of c k pg] by (simp_all add: reported)
  have after: "items (snd (handleContentStateChange wid n None 0 (pg1, st1))) (sessionKey wid n) =
      Some (Parsed \<lparr>lastActiveContentId = None, content_of = pg_allContentState pg1\<rparr>) \<and>
    pg_allContentState (fst (handleContentStateChange wid n None 0 (pg1, st1))) =
      pg_allContentState pg1"
    using general [OF writable written] by simp
  show ?thesis
    using general [OF assms(3), of d pg] after
    by (simp add: report reported progress)
qed

theorem exit_clears_last_active_keeps_progress_witness:
  "items (snd (notifyParent ''w'' ''1''
       (fst (handleBackButtonClick (sample_props sample_auto_meta)
          ((run sample_collapse_run (initial_state ''w'' 1)))))
       (sample_page_state, sample_storage))) (sessionKey ''w'' ''1'') =
     Some (Parsed \<lparr>lastActiveContentId = None, content_of = content_of sample_record\<rparr>) \<and>
   content_of sample_record ''guidance_1'' = Some \<lparr>stored_currentStepIndex = 1\<rparr> \<and>
   pg_allContentState (fst (notifyParent ''w'' ''1''
       (fst (handleBackButtonClick (sample_props sample_auto_meta)
          ((run sample_collapse_run (initial_state ''w'' 1)))))
       (sample_page_state, sample_storage))) = pg_allContentState sample_page_state"
proof -
  have ids: "''w'' \<noteq> []" "''1'' \<noteq> []"
    by simp_all
  have writable: "\<not> quota_exceeded sample_storage"
    by (simp add: sample_storage_def)
  have collapsed: "mode_of (worksheetMeta (sample_props sample_auto_meta)) = Regions \<or>
      \<not> isGuidanceTextMode (run sample_collapse_run (initial_state ''w'' 1))"
    by code_simp
  have stored: "items sample_storage (sessionKey ''w'' ''1'') = Some (Parsed sample_record) \<and>
      content_of sample_record = pg_allContentState sample_page_state"
    by (simp add: sample_storage_def sample_record_def sample_page_state_def)
  have saved: "content_of sample_record ''guidance_1'' = Some \<lparr>stored_currentStepIndex = 1\<rparr>"
    by (simp add: sample_record_def sample_progress_def)
  show ?thesis
    using exit_clears_last_active_keeps_progress [OF ids writable collapsed,
        THEN conjunct1, rule_format, OF stored] saved
    by blast
qed


subsection \<open>Restoration\<close>

lemma load_handoff:
  assumes "wid \<noteq> []" and "n \<noteq> []" and "handoffContent locationState = Some c"
  shows "pg_initialActiveContent (loadSessionState wid n locationState wd st pg) = Some c"
    and "pg_initialCurrentStepIndex (loadSessionState wid n locationState wd st pg) =
      handoffStepIndex locationState"
  using assms
  by (simp_all add: loadSessionState_def useLocationState_def Let_def
      split: option.split stored_item.split)

lemma load_session_record:
  assumes "wid \<noteq> []" and "n \<noteq> []" and "handoffContent locationState = None"
    and "items st (sessionKey wid n) = Some (Parsed d)"
    and "lastActiveContentId d = Some lastId" and "lastId \<noteq> []"
    and "lastActiveContentFound meta n lastId"
  shows "pg_initialActiveContent (loadSessionState wid n locationState (Some meta) st pg) =
      Some lastId"
    and "pg_initialCurrentStepIndex (loadSessionState wid n locationState (Some meta) st pg) =
      (case content_of d lastId of None \<Rightarrow> 0 | Some saved \<Rightarrow> stored_currentStepIndex saved)"
    and "pg_allContentState (loadSessionState wid n locationState (Some meta) st pg) =
      content_of d"
  using assms by (simp_all add: loadSessionState_def Let_def)

lemma restore_applies:
  assumes "initialActiveContent p = Some contentId"
    and "find (\<lambda>c. content_id c = contentId)
           (currentPageContent (worksheetMeta p) (pageIndex p)) = Some matching"
    and "\<not> hasRestoredInitialState s"
  shows "activeContent (fst (restoreInitialState p s)) = Some matching"
    and "currentStepIndex (fst (restoreInitialState p s)) = initialCurrentStepIndex p"
    and "hasRestoredInitialState (fst (restoreInitialState p s))"
    and "contentDescription (mode_of (worksheetMeta p)) matching \<noteq> [] \<longrightarrow>
      displayedMessages (fst (restoreInitialState p s)) =
        take (initialCurrentStepIndex p + 1) (contentDescription (mode_of (worksheetMeta p)) matching)"
proof -
  from assms(2) have "currentPageContent (worksheetMeta p) (pageIndex p) \<noteq> []"
    by auto
  with assms show "activeContent (fst (restoreInitialState p s)) = Some matching"
    and "currentStepIndex (fst (restoreInitialState p s)) = initialCurrentStepIndex p"
    and "hasRestoredInitialState (fst (restoreInitialState p s))"
    and "contentDescription (mode_of (worksheetMeta p)) matching \<noteq> [] \<longrightarrow>
      displayedMessages (fst (restoreInitialState p s)) =
        take (initialCurrentStepIndex p + 1) (contentDescription (mode_of (worksheetMeta p)) matching)"
    by (simp_all add: restoreInitialState_def Let_def)
qed

lemma restore_latched:
  "hasRestoredInitialState s \<Longrightarrow> restoreInitialState p s = (s, [])"
  by (simp add: restoreInitialState_def split: option.split)

lemma reset_same_page:
  "worksheetId p = prevWorksheetId s \<Longrightarrow> pageIndex p = prevPageIndex s \<Longrightarrow>
   resetOnChange p s = (s, [])"
  by (simp add: resetOnChange_def)

lemma check_keeps:
  "hasRestoredInitialState (fst (audioAvailabilityCheck p s)) = hasRestoredInitialState s"
  "prevWorksheetId (fst (audioAvailabilityCheck p s)) = prevWorksheetId s"
  "prevPageIndex (fst (audioAvailabilityCheck p s)) = prevPageIndex s"
  by (simp_all add: audioAvailabilityCheck_def split: mode.split content.split)

lemma restore_keeps_refs:
  "prevWorksheetId (fst (restoreInitialState p s)) = prevWorksheetId s"
  "prevPageIndex (fst (restoreInitialState p s)) = prevPageIndex s"
  by (simp_all add: restoreInitialState_def Let_def split: option.split)

lemma restore_keeps_latch:
  "hasRestoredInitialState s \<Longrightarrow> hasRestoredInitialState (fst (restoreInitialState p s))"
  by (simp add: restore_latched)

lemma click_keeps:
  "hasRestoredInitialState (fst (handleContentClick p c s)) = hasRestoredInitialState s"
  "prevWorksheetId (fst (handleContentClick p c s)) = prevWorksheetId s"
  "prevPageIndex (fst (handleContentClick p c s)) = prevPageIndex s"
  by (simp_all add: handleContentClick_def Let_def)

lemma next_keeps:
  "hasRestoredInitialState (fst (handleNextStep p s)) = hasRestoredInitialState s"
  "prevWorksheetId (fst (handleNextStep p s)) = prevWorksheetId s"
  "prevPageIndex (fst (handleNextStep p s)) = prevPageIndex s"
  by (simp_all add: handleNextStep_def Let_def split: option.split)

lemma back_keeps:
  "hasRestoredInitialState (fst (handleBackButtonClick p s)) = hasRestoredInitialState s"
  "prevWorksheetId (fst (handleBackButtonClick p s)) = prevWorksheetId s"
  "prevPageIndex (fst (handleBackButtonClick p s)) = prevPageIndex s"
  by (simp_all add: handleBackButtonClick_def)

lemma message_keeps:
  "fst (handleMessageClick p i s) = s"
  by (simp add: handleMessageClick_def split: option.split)

lemma step_keeps_refs:
  assumes "same_page s (p, e)"
  shows "prevWorksheetId (fst (viewerStep p e s)) = prevWorksheetId s \<and>
         prevPageIndex (fst (viewerStep p e s)) = prevPageIndex s"
proof (cases e)
  case (ClickRegion r)
  then show ?thesis by (simp add: handleRegionClick_def click_keeps)
next
  case (ClickGuidance g)
  then show ?thesis by (simp add: handleGuidanceClick_def click_keeps)
next
  case NextStep
  then show ?thesis by (simp add: next_keeps)
next
  case BackButton
  then show ?thesis by (simp add: back_keeps)
next
  case (MessageClick i)
  then show ?thesis by (simp add: message_keeps)
next
  case Rendered
  with assms show ?thesis
    by (simp add: commit_fst same_page_def reset_same_page check_keeps restore_keeps_refs)
next
  case (ProbeSettled b)
  then show ?thesis by (simp add: completeCheck_def)
qed

lemma step_keeps_latch:
  assumes "same_page s (p, e)" and "hasRestoredInitialState s"
  shows "hasRestoredInitialState (fst (viewerStep p e s))"
proof (cases e)
  case (ClickRegion r)
  with assms show ?thesis by (simp add: handleRegionClick_def click_keeps)
next
  case (ClickGuidance g)
  with assms show ?thesis by (simp add: handleGuidanceClick_def click_keeps)
next
  case NextStep
  with assms show ?thesis by (simp add: next_keeps)
next
  case BackButton
  with assms show ?thesis by (simp add: back_keeps)
next
  case (MessageClick i)
  with assms show ?thesis by (simp add: message_keeps)
next
  case Rendered
  with assms show ?thesis
    by (simp add: commit_fst same_page_def reset_same_page check_keeps restore_keeps_latch)
next
  case (ProbeSettled b)
  with assms show ?thesis by (simp add: completeCheck_def)
qed

lemma step_sets_latch_when_restoring:
  assumes "same_page s (p, e)" and "restoresAt p e s"
  shows "hasRestoredInitialState (fst (viewerStep p e s))"
  using assms
  by (simp add: restoresAt_def commit_fst same_page_def reset_same_page check_keeps)

lemma latched_never_restores:
  "hasRestoredInitialState s \<Longrightarrow> same_page s (p, e) \<Longrightarrow> \<not> restoresAt p e s"
  by (simp add: restoresAt_def same_page_def reset_same_page)

lemma same_page_step:
  assumes "same_page s (p, e)"
  shows "same_page (fst (viewerStep p e s)) = same_page s"
  using step_keeps_refs [OF assms] by (simp add: same_page_def fun_eq_iff)

lemma latched_run:
  "hasRestoredInitialState s \<Longrightarrow> list_all (same_page s) evs \<Longrightarrow>
   restorations evs s = 0 \<and> hasRestoredInitialState (run evs s)"
proof (induction evs arbitrary: s)
  case Nil
  then show ?case by simp
next
  case (Cons pe evs)
  obtain p e where pe: "pe = (p, e)" by (cases pe)
  from Cons.prems pe have here: "same_page s (p, e)" and rest: "list_all (same_page s) evs"
    by simp_all
  have latch: "hasRestoredInitialState (fst (viewerStep p e s))"
    using step_keeps_latch [OF here Cons.prems(1)] .
  have rest': "list_all (same_page (fst (viewerStep p e s))) evs"
    using rest by (simp add: same_page_step [OF here])
  show ?case
    using Cons.IH [OF latch rest'] latched_never_restores [OF Cons.prems(1) here] pe
    by simp
qed

lemma restorations_at_most_once:
  "list_all (same_page s) evs \<Longrightarrow> restorations evs s \<le> 1"
proof (induction evs arbitrary: s)
  case Nil
  then show ?case by simp
next
  case (Cons pe evs)
  obtain p e where pe: "pe = (p, e)" by (cases pe)
  from Cons.prems pe have here: "same_page s (p, e)" and rest: "list_all (same_page s) evs"
    by simp_all
  have rest': "list_all (same_page (fst (viewerStep p e s))) evs"
    using rest by (simp add: same_page_step [OF here])
  show ?case
  proof (cases "restoresAt p e s")
    case True
    then have "hasRestoredInitialState (fst (viewerStep p e s))"
      using step_sets_latch_when_restoring [OF here] by simp
    from latched_run [OF this rest'] True pe show ?thesis by simp
  next
    case False
    with Cons.IH [OF rest'] pe show ?thesis by simp
  qed
qed

text \<open>
  C4. Loading the session: a resume handoff that names a unit becomes the initial content
  with the handoff's step (0 when it gives none), whatever the stored record says; with no
  handoff, a stored last active id that names a unit of the metadata becomes the initial
  content with that unit's stored step. The restoration effect, with the latch clear and
  the initial content found on the page, makes that unit active at the handed step and
  sets the latch; with the latch set it returns the state as it is and does nothing, under
  any props (any metadata object). Over a run with no navigation at most one render
  restores, and once the latch is set none does and the latch stays set.
\<close>

theorem restoration_once:
  "(wid \<noteq> [] \<and> n \<noteq> [] \<and> handoffContent locationState = Some c \<longrightarrow>
      pg_initialActiveContent (loadSessionState wid n locationState wd st pg) = Some c \<and>
      pg_initialCurrentStepIndex (loadSessionState wid n locationState wd st pg) =
        handoffStepIndex locationState) \<and>
   (wid \<noteq> [] \<and> n \<noteq> [] \<and> handoffContent locationState = None \<and>
    items st (sessionKey wid n) = Some (Parsed d) \<and>
    lastActiveContentId d = Some lastId \<and> lastId \<noteq> [] \<and>
    lastActiveContentFound meta n lastId \<longrightarrow>
      pg_initialActiveContent (loadSessionState wid n locationState (Some meta) st pg) =
        Some lastId \<and>
      pg_initialCurrentStepIndex (loadSessionState wid n locationState (Some meta) st pg) =
        (case content_of d lastId of None \<Rightarrow> 0 | Some saved \<Rightarrow> stored_currentStepIndex saved)) \<and>
   (initialActiveContent p = Some contentId \<and>
    find (\<lambda>c. content_id c = contentId)
      (currentPageContent (worksheetMeta p) (pageIndex p)) = Some matching \<and>
    \<not> hasRestoredInitialState s \<longrightarrow>
      activeContent (fst (restoreInitialState p s)) = Some matching \<and>
      currentStepIndex (fst (restoreInitialState p s)) = initialCurrentStepIndex p \<and>
      hasRestoredInitialState (fst (restoreInitialState p s))) \<and>
   (hasRestoredInitialState s \<longrightarrow> restoreInitialState p s = (s, [])) \<and>
   (list_all (same_page s) evs \<longrightarrow>
      restorations evs s \<le> 1 \<and>
      (hasRestoredInitialState s \<longrightarrow>
         restorations evs s = 0 \<and> hasRestoredInitialState (run evs s)))"
proof (intro conjI impI)
  assume "wid \<noteq> [] \<and> n \<noteq> [] \<and> handoffContent locationState = Some c"
  then show "pg_initialActiveContent (loadSessionState wid n locationState wd st pg) = Some c"
    and "pg_initialCurrentStepIndex (loadSessionState wid n locationState wd st pg) =
        handoffStepIndex locationState"
    by (simp_all add: load_handoff)
next
  assume "wid \<noteq> [] \<and> n \<noteq> [] \<and> handoffContent locationState = None \<and>
    items st (sessionKey wid n) = Some (Parsed d) \<and>
    lastActiveContentId d = Some lastId \<and> lastId \<noteq> [] \<and>
    lastActiveContentFound meta n lastId"
  then show "pg_initialActiveContent (loadSessionState wid n locationState (Some meta) st pg) =
        Some lastId"
    and "pg_initialCurrentStepIndex (loadSessionState wid n locationState (Some meta) st pg) =
        (case content_of d lastId of None \<Rightarrow> 0 | Some saved \<Rightarrow> stored_currentStepIndex saved)"
    by (simp_all add: load_session_record)
next
  assume "initialActiveContent p = Some contentId \<and>
    find (\<lambda>c. content_id c = contentId)
      (currentPageContent (worksheetMeta p) (pageIndex p)) = Some matching \<and>
    \<not> hasRestoredInitialState s"
  then show "activeContent (fst (restoreInitialState p s)) = Some matching"
    and "currentStepIndex (fst (restoreInitialState p s)) = initialCurrentStepIndex p"
    and "hasRestoredInitialState (fst (restoreInitialState p s))"
    by (simp_all add: restore_applies)
next
  assume "hasRestoredInitialState s"
  then show "restoreInitialState p s = (s, [])"
    by (rule restore_latched)
next
  assume "list_all (same_page s) evs"
  then show "restorations evs s \<le> 1"
    by (rule restorations_at_most_once)
next
  assume "list_all (same_page s) evs" and "hasRestoredInitialState s"
  then show "restorations evs s = 0" and "hasRestoredInitialState (run evs s)"
    by (simp_all add: latched_run)
qed

theorem restoration_once_witness:
  "initialActiveContent sample_resumed_props = Some ''r1'' \<and>
   initialCurrentStepIndex sample_resumed_props = 2 \<and>
   pg_initialActiveContent (loadSessionState ''w'' ''1'' None (Some sample_regions_meta)
      sample_regions_storage sample_fresh_page) = Some ''r2'' \<and>
   activeContent (fst (restoreInitialState sample_resumed_props (initial_state ''w'' 1))) =
     Some (Region sample_region) \<and>
   currentStepIndex (fst (restoreInitialState sample_resumed_props (initial_state ''w'' 1))) = 2 \<and>
   restorations sample_resumed_run (initial_state ''w'' 1) = 1 \<and>
   activeContent (run sample_resumed_run (initial_state ''w'' 1)) = None \<and>
   restoreInitialState sample_resumed_props (run sample_resumed_run (initial_state ''w'' 1)) =
     (run sample_resumed_run (initial_state ''w'' 1), [])"
proof -
  note handoff_case = restoration_once [of "''w''" "''1''" "Some sample_handoff" "''r1''"
      "Some sample_regions_meta" sample_regions_storage sample_fresh_page _ _ _
      sample_resumed_props "''r1''" "Region sample_region" "initial_state ''w'' 1"
      sample_resumed_run]
  note stored_case = restoration_once [of "''w''" "''1''" None "''r1''"
      "Some sample_regions_meta" sample_regions_storage sample_fresh_page
      "\<lparr>lastActiveContentId = Some ''r2'',
        content_of = [''r1'' \<mapsto> \<lparr>stored_currentStepIndex = 1\<rparr>,
                      ''r2'' \<mapsto> \<lparr>stored_currentStepIndex = 0\<rparr>]\<rparr>" "''r2''"
      sample_regions_meta
      sample_resumed_props "''r1''" "Region sample_region"
      "run sample_resumed_run (initial_state ''w'' 1)" "[]"]
  have handed: "''w'' \<noteq> [] \<and> ''1'' \<noteq> [] \<and> handoffContent (Some sample_handoff) = Some ''r1''"
    by (simp add: handoffContent_def sample_handoff_def)
  have handed_step: "handoffStepIndex (Some sample_handoff) = 2"
    by (simp add: handoffStepIndex_def sample_handoff_def)
  have stored: "''w'' \<noteq> [] \<and> ''1'' \<noteq> [] \<and> handoffContent None = None \<and>
    items sample_regions_storage (sessionKey ''w'' ''1'') =
      Some (Parsed \<lparr>lastActiveContentId = Some ''r2'',
        content_of = [''r1'' \<mapsto> \<lparr>stored_currentStepIndex = 1\<rparr>,
                      ''r2'' \<mapsto> \<lparr>stored_currentStepIndex = 0\<rparr>]\<rparr>) \<and>
    lastActiveContentId \<lparr>lastActiveContentId = Some ''r2'',
        content_of = [''r1'' \<mapsto> \<lparr>stored_currentStepIndex = 1\<rparr>,
                      ''r2'' \<mapsto> \<lparr>stored_currentStepIndex = 0\<rparr>]\<rparr> = Some ''r2'' \<and>
    ''r2'' \<noteq> [] \<and> lastActiveContentFound sample_regions_meta ''1'' ''r2''"
    by (simp add: handoffContent_def sample_regions_storage_def sample_regions_meta_def)
  have a: "initialActiveContent sample_resumed_props = Some ''r1'' \<and>
      initialCurrentStepIndex sample_resumed_props = 2"
    using handoff_case [THEN conjunct1, rule_format, OF handed] handed_step
    by (simp add: sample_resumed_props_def sample_page_props_def)
  have b: "pg_initialActiveContent (loadSessionState ''w'' ''1'' None (Some sample_regions_meta)
      sample_regions_storage sample_fresh_page) = Some ''r2''"
    using stored_case [THEN conjunct2, THEN conjunct1, rule_format, OF stored] by simp
  have found: "find (\<lambda>c. content_id c = ''r1'')
      (currentPageContent (worksheetMeta sample_resumed_props) (pageIndex sample_resumed_props)) =
      Some (Region sample_region)"
    by code_simp
  have fresh: "\<not> hasRestoredInitialState (initial_state ''w'' 1)"
    by (simp add: initial_state_def)
  have c: "activeContent (fst (restoreInitialState sample_resumed_props (initial_state ''w'' 1))) =
     Some (Region sample_region) \<and>
    currentStepIndex (fst (restoreInitialState sample_resumed_props (initial_state ''w'' 1))) = 2"
    using handoff_case [THEN conjunct2, THEN conjunct2, THEN conjunct1, rule_format] a found fresh
    by simp
  have count: "restorations sample_resumed_run (initial_state ''w'' 1) = 1"
    by code_simp
  have idle: "activeContent (run sample_resumed_run (initial_state ''w'' 1)) = None"
    by code_simp
  have latched: "hasRestoredInitialState (run sample_resumed_run (initial_state ''w'' 1))"
    by code_simp
  have e: "restoreInitialState sample_resumed_props (run sample_resumed_run (initial_state ''w'' 1)) =
     (run sample_resumed_run (initial_state ''w'' 1), [])"
    using stored_case latched by blast
  from a b c count idle e show ?thesis by blast
qed


subsection \<open>One probe outcome per page\<close>

lemma check_performed:
  "audioCheckPerformed s \<Longrightarrow> audioAvailabilityCheck p s = (s, None)"
  by (simp add: audioAvailabilityCheck_def)

lemma check_started:
  assumes "audioAvailabilityCheck p s = (s', Some audioPath)"
  shows "s' = s \<and> \<not> audioCheckPerformed s"
proof (cases "\<not> audioCheckPerformed s \<and>
    currentPageContent (worksheetMeta p) (pageIndex p) \<noteq> []")
  case False
  then have "audioAvailabilityCheck p s = (s, None)"
    by (auto simp: audioAvailabilityCheck_def)
  with assms show ?thesis by simp
next
  case True
  with assms show ?thesis
    by (cases "mode_of (worksheetMeta p)";
        cases "hd (currentPageContent (worksheetMeta p) (pageIndex p))")
      (auto simp: audioAvailabilityCheck_def split: if_splits)
qed

lemma restore_keeps_audio:
  "audioAvailable (fst (restoreInitialState p s)) = audioAvailable s"
  "audioCheckPerformed (fst (restoreInitialState p s)) = audioCheckPerformed s"
  by (simp_all add: restoreInitialState_def Let_def split: option.split)

lemma click_keeps_audio:
  "audioAvailable (fst (handleContentClick p c s)) = audioAvailable s"
  "audioCheckPerformed (fst (handleContentClick p c s)) = audioCheckPerformed s"
  by (simp_all add: handleContentClick_def Let_def)

lemma next_keeps_audio:
  "audioAvailable (fst (handleNextStep p s)) = audioAvailable s"
  "audioCheckPerformed (fst (handleNextStep p s)) = audioCheckPerformed s"
  by (simp_all add: handleNextStep_def Let_def split: option.split)

lemma back_keeps_audio:
  "audioAvailable (fst (handleBackButtonClick p s)) = audioAvailable s"
  "audioCheckPerformed (fst (handleBackButtonClick p s)) = audioCheckPerformed s"
  by (simp_all add: handleBackButtonClick_def)

lemma effect_consistent:
  "probe_consistent (availabilityEffect p (live, s))"
proof (cases "audioAvailabilityCheck p s")
  case (Pair s' started)
  show ?thesis
  proof (cases started)
    case None
    with Pair show ?thesis by (simp add: availabilityEffect_def probe_consistent_def)
  next
    case (Some audioPath)
    with Pair check_started [of p s s' audioPath] show ?thesis
      by (simp add: availabilityEffect_def probe_consistent_def)
  qed
qed

lemma deliver_consistent:
  "probe_consistent (live, s) \<Longrightarrow> probe_consistent (deliver available (live, s))"
  by (cases live) (auto simp: deliver_def completeCheck_def probe_consistent_def)

lemma page_step_consistent:
  assumes "probe_consistent (live, s)"
  shows "probe_consistent (pageStep p e (live, s))"
proof (cases e)
  case (ClickRegion r)
  with assms show ?thesis
    by (simp add: probe_consistent_def handleRegionClick_def click_keeps_audio)
next
  case (ClickGuidance g)
  with assms show ?thesis
    by (simp add: probe_consistent_def handleGuidanceClick_def click_keeps_audio)
next
  case NextStep
  with assms show ?thesis by (simp add: probe_consistent_def next_keeps_audio)
next
  case BackButton
  with assms show ?thesis by (simp add: probe_consistent_def back_keeps_audio)
next
  case (MessageClick i)
  with assms show ?thesis by (simp add: probe_consistent_def message_keeps)
next
  case Rendered
  then show ?thesis by (simp add: effect_consistent)
next
  case (ProbeSettled available)
  with assms show ?thesis by (simp add: deliver_consistent)
qed

lemma page_step_refs:
  assumes "same_page s (p, e)"
  shows "same_page (snd (pageStep p e (live, s))) = same_page s"
proof (cases e)
  case (ClickRegion r)
  then show ?thesis using same_page_step [OF assms] by simp
next
  case (ClickGuidance g)
  then show ?thesis using same_page_step [OF assms] by simp
next
  case NextStep
  then show ?thesis using same_page_step [OF assms] by simp
next
  case BackButton
  then show ?thesis using same_page_step [OF assms] by simp
next
  case (MessageClick i)
  then show ?thesis using same_page_step [OF assms] by simp
next
  case Rendered
  have "snd (availabilityEffect p (live, s')) = fst (audioAvailabilityCheck p s')" for s'
    by (simp add: availabilityEffect_def split: prod.split option.split)
  with Rendered show ?thesis using same_page_step [OF assms] by (simp add: commit_fst)
next
  case (ProbeSettled available)
  then show ?thesis
    by (cases live) (simp_all add: deliver_def completeCheck_def same_page_def fun_eq_iff)
qed

lemma page_step_after_commit:
  assumes "audioCheckPerformed s" and "probe_consistent (live, s)" and "same_page s (p, e)"
  shows "audioCheckPerformed (snd (pageStep p e (live, s))) \<and>
         audioAvailable (snd (pageStep p e (live, s))) = audioAvailable s"
proof (cases e)
  case (ClickRegion r)
  with assms show ?thesis by (simp add: handleRegionClick_def click_keeps_audio)
next
  case (ClickGuidance g)
  with assms show ?thesis by (simp add: handleGuidanceClick_def click_keeps_audio)
next
  case NextStep
  with assms show ?thesis by (simp add: next_keeps_audio)
next
  case BackButton
  with assms show ?thesis by (simp add: back_keeps_audio)
next
  case (MessageClick i)
  with assms show ?thesis by (simp add: message_keeps)
next
  case Rendered
  from assms(3) have "resetOnChange p s = (s, [])"
    by (simp add: same_page_def reset_same_page)
  moreover have "audioAvailabilityCheck p (fst (restoreInitialState p s)) =
      (fst (restoreInitialState p s), None)"
    using assms(1) by (simp add: check_performed restore_keeps_audio)
  ultimately show ?thesis
    using Rendered assms(1) by (simp add: availabilityEffect_def restore_keeps_audio)
next
  case (ProbeSettled available)
  with assms show ?thesis
    by (cases live) (auto simp: deliver_def completeCheck_def probe_consistent_def)
qed

lemma committed_run:
  "audioCheckPerformed (snd ls) \<Longrightarrow> probe_consistent ls \<Longrightarrow> list_all (same_page (snd ls)) evs \<Longrightarrow>
   pageCommits evs ls = 0 \<and> audioCheckPerformed (snd (pageRun evs ls)) \<and>
   audioAvailable (snd (pageRun evs ls)) = audioAvailable (snd ls)"
proof (induction evs arbitrary: ls)
  case Nil
  then show ?case by simp
next
  case (Cons pe evs)
  obtain p e where pe: "pe = (p, e)" by (cases pe)
  obtain live s where ls: "ls = (live, s)" by (cases ls)
  from Cons.prems pe ls have here: "same_page s (p, e)" and rest: "list_all (same_page s) evs"
    and performed: "audioCheckPerformed s" and consistent: "probe_consistent (live, s)"
    by simp_all
  have after: "audioCheckPerformed (snd (pageStep p e (live, s)))"
    "audioAvailable (snd (pageStep p e (live, s))) = audioAvailable s"
    using page_step_after_commit [OF performed consistent here] by simp_all
  have consistent': "probe_consistent (pageStep p e (live, s))"
    using consistent by (rule page_step_consistent)
  have rest': "list_all (same_page (snd (pageStep p e (live, s)))) evs"
    using rest by (simp add: page_step_refs [OF here])
  have "\<not> commitsAt p e (live, s)"
    using performed by (simp add: commitsAt_def)
  with Cons.IH [OF after(1) consistent' rest'] after(2) pe ls show ?case by simp
qed

lemma page_commits_at_most_once:
  "probe_consistent ls \<Longrightarrow> list_all (same_page (snd ls)) evs \<Longrightarrow> pageCommits evs ls \<le> 1"
proof (induction evs arbitrary: ls)
  case Nil
  then show ?case by simp
next
  case (Cons pe evs)
  obtain p e where pe: "pe = (p, e)" by (cases pe)
  obtain live s where ls: "ls = (live, s)" by (cases ls)
  from Cons.prems pe ls have here: "same_page s (p, e)" and rest: "list_all (same_page s) evs"
    and consistent: "probe_consistent (live, s)"
    by simp_all
  have consistent': "probe_consistent (pageStep p e (live, s))"
    using consistent by (rule page_step_consistent)
  have rest': "list_all (same_page (snd (pageStep p e (live, s)))) evs"
    using rest by (simp add: page_step_refs [OF here])
  show ?case
  proof (cases "commitsAt p e (live, s)")
    case True
    then have "audioCheckPerformed (snd (pageStep p e (live, s)))"
      by (simp add: commitsAt_def)
    from committed_run [OF this consistent' rest'] True pe ls show ?thesis by simp
  next
    case False
    with Cons.IH [OF consistent' rest'] pe ls show ?thesis by simp
  qed
qed

text \<open>
  C6. The claim is right and AutoModeContentDisplay misses it. In WorksheetViewer, over
  any run that stays on one page, at most one step commits an outcome, and once an outcome
  is committed no later callback or render changes it; the outcome is the first callback's
  (canplaythrough gives available, error and the 3000 ms timer give unavailable); and a
  change of worksheet or page clears the guard, so the next page is probed again. In
  AutoModeContentDisplay nothing clears the guard: after the probe of page 1 has ended
  unavailable and the page prop has become 2, no probe is registered for page 2 (a fresh
  mount on page 2 would probe /audio/w/2_1_1.mp3), the canplaythrough callback changes
  nothing and audio stays unavailable. On the same visit WorksheetViewer registers a new
  probe on page 2 and commits available.
\<close>

theorem probe_outcome_per_page:
  "(probe_consistent ls \<and> list_all (same_page (snd ls)) evs \<longrightarrow>
      pageCommits evs ls \<le> 1 \<and>
      (audioCheckPerformed (snd ls) \<longrightarrow>
         pageCommits evs ls = 0 \<and>
         audioAvailable (snd (pageRun evs ls)) = audioAvailable (snd ls))) \<and>
   (\<not> audioCheckPerformed s \<longrightarrow>
      pageStep p (ProbeSettled available) (Some False, s) =
        (Some True, s\<lparr>audioAvailable := available, audioCheckPerformed := True\<rparr>)) \<and>
   pageStep p (ProbeSettled available) (Some True, s) = (Some True, s) \<and>
   pageStep p (ProbeSettled available) (None, s) = (None, s) \<and>
   runProbe (signal # later) s =
     (True, s\<lparr>audioAvailable := (signal = CanPlayThrough), audioCheckPerformed := True\<rparr>) \<and>
   runProbe (dispatchOrder []) s =
     (True, s\<lparr>audioAvailable := False, audioCheckPerformed := True\<rparr>) \<and>
   (prevWorksheetId s \<noteq> worksheetId p \<or> prevPageIndex s \<noteq> pageIndex p \<longrightarrow>
      \<not> audioCheckPerformed (fst (resetOnChange p s))) \<and>
   displayAvailabilityCheck (sample_display_props 2) display_initial =
     Some ''/audio/w/2_1_1.mp3'' \<and>
   displayRun (take 2 sample_display_visit) (None, display_initial) =
     (Some True, display_initial\<lparr>ds_audioAvailable := False, ds_audioCheckPerformed := True\<rparr>) \<and>
   displayRun (take 3 sample_display_visit) (None, display_initial) =
     (None, display_initial\<lparr>ds_audioAvailable := False, ds_audioCheckPerformed := True\<rparr>) \<and>
   displayRun sample_display_visit (None, display_initial) =
     (None, display_initial\<lparr>ds_audioAvailable := False, ds_audioCheckPerformed := True\<rparr>) \<and>
   fst (pageRun (take 3 sample_viewer_visit) (None, initial_state ''w'' 1)) = Some False \<and>
   audioCheckPerformed (snd (pageRun (take 3 sample_viewer_visit) (None, initial_state ''w'' 1))) =
     False \<and>
   fst (pageRun sample_viewer_visit (None, initial_state ''w'' 1)) = Some True \<and>
   audioAvailable (snd (pageRun sample_viewer_visit (None, initial_state ''w'' 1))) = True \<and>
   audioCheckPerformed (snd (pageRun sample_viewer_visit (None, initial_state ''w'' 1))) = True"
proof -
  have general: "probe_consistent ls \<and> list_all (same_page (snd ls)) evs \<longrightarrow>
      pageCommits evs ls \<le> 1 \<and>
      (audioCheckPerformed (snd ls) \<longrightarrow>
         pageCommits evs ls = 0 \<and>
         audioAvailable (snd (pageRun evs ls)) = audioAvailable (snd ls))"
    using page_commits_at_most_once [of ls evs] committed_run [of ls evs] by blast
  have first: "\<not> audioCheckPerformed s \<longrightarrow>
      pageStep p (ProbeSettled available) (Some False, s) =
        (Some True, s\<lparr>audioAvailable := available, audioCheckPerformed := True\<rparr>)"
    by (simp add: deliver_def completeCheck_def)
  have later: "pageStep p (ProbeSettled available) (Some True, s) = (Some True, s)"
    by (simp add: deliver_def completeCheck_def)
  have unregistered: "pageStep p (ProbeSettled available) (None, s) = (None, s)"
    by (simp add: deliver_def)
  have closure: "runProbe (signal # later) s =
     (True, s\<lparr>audioAvailable := (signal = CanPlayThrough), audioCheckPerformed := True\<rparr>)"
    by (rule runProbe_Cons)
  have timer: "runProbe (dispatchOrder []) s =
     (True, s\<lparr>audioAvailable := False, audioCheckPerformed := True\<rparr>)"
    using probe_first_settle_wins [of s signal later 0 "[]"] by simp
  have cleared: "prevWorksheetId s \<noteq> worksheetId p \<or> prevPageIndex s \<noteq> pageIndex p \<longrightarrow>
      \<not> audioCheckPerformed (fst (resetOnChange p s))"
    by (simp add: resetOnChange_def Let_def)
  have d1: "displayAvailabilityCheck (sample_display_props 2) display_initial =
     Some ''/audio/w/2_1_1.mp3''"
    by code_simp
  have d2: "displayRun (take 2 sample_display_visit) (None, display_initial) =
     (Some True, display_initial\<lparr>ds_audioAvailable := False, ds_audioCheckPerformed := True\<rparr>)"
    by code_simp
  have d3: "displayRun (take 3 sample_display_visit) (None, display_initial) =
     (None, display_initial\<lparr>ds_audioAvailable := False, ds_audioCheckPerformed := True\<rparr>)"
    by code_simp
  have d4: "displayRun sample_display_visit (None, display_initial) =
     (None, display_initial\<lparr>ds_audioAvailable := False, ds_audioCheckPerformed := True\<rparr>)"
    by code_simp
  have v1: "fst (pageRun (take 3 sample_viewer_visit) (None, initial_state ''w'' 1)) = Some False"
    by code_simp
  have v2: "audioCheckPerformed
      (snd (pageRun (take 3 sample_viewer_visit) (None, initial_state ''w'' 1))) = False"
    by code_simp
  have v3: "fst (pageRun sample_viewer_visit (None, initial_state ''w'' 1)) = Some True"
    by code_simp
  have v4: "audioAvailable (snd (pageRun sample_viewer_visit (None, initial_state ''w'' 1))) = True"
    by code_simp
  have v5: "audioCheckPerformed
      (snd (pageRun sample_viewer_visit (None, initial_state ''w'' 1))) = True"
    by code_simp
  from general first later unregistered closure timer cleared d1 d2 d3 d4 v1 v2 v3 v4 v5
  show ?thesis by (intro conjI)
qed

theorem probe_outcome_per_page_witness:
  "probe_consistent (None, initial_state ''w'' 1) \<and>
   list_all (same_page (initial_state ''w'' 1))
     [(sample_two_page_props 1, Rendered),
      (sample_two_page_props 1, ProbeSettled False),
      (sample_two_page_props 1, Rendered),
      (sample_two_page_props 1, ProbeSettled True)] \<and>
   pageCommits
     [(sample_two_page_props 1, Rendered),
      (sample_two_page_props 1, ProbeSettled False),
      (sample_two_page_props 1, Rendered),
      (sample_two_page_props 1, ProbeSettled True)] (None, initial_state ''w'' 1) \<le> 1 \<and>
   pageCommits
     [(sample_two_page_props 1, Rendered),
      (sample_two_page_props 1, ProbeSettled False),
      (sample_two_page_props 1, Rendered),
      (sample_two_page_props 1, ProbeSettled True)] (None, initial_state ''w'' 1) = 1 \<and>
   audioAvailable (snd (pageRun
     [(sample_two_page_props 1, Rendered),
      (sample_two_page_props 1, ProbeSettled False),
      (sample_two_page_props 1, Rendered),
      (sample_two_page_props 1, ProbeSettled True)] (None, initial_state ''w'' 1))) = False \<and>
   \<not> audioCheckPerformed
       (fst (resetOnChange (sample_two_page_props 2)
          (snd (pageRun (take 2 sample_viewer_visit) (None, initial_state ''w'' 1)))))"
proof -
  let ?evs = "[(sample_two_page_props 1, Rendered),
      (sample_two_page_props 1, ProbeSettled False),
      (sample_two_page_props 1, Rendered),
      (sample_two_page_props 1, ProbeSettled True)]"
  have start: "probe_consistent (None, initial_state ''w'' 1) \<and>
      list_all (same_page (snd (None :: bool option, initial_state ''w'' 1))) ?evs"
    by code_simp
  have count: "pageCommits ?evs (None, initial_state ''w'' 1) = 1"
    by code_simp
  have result: "audioAvailable (snd (pageRun ?evs (None, initial_state ''w'' 1))) = False"
    by code_simp
  have moved: "prevWorksheetId
        (snd (pageRun (take 2 sample_viewer_visit) (None, initial_state ''w'' 1))) \<noteq>
      worksheetId (sample_two_page_props 2) \<or>
    prevPageIndex
        (snd (pageRun (take 2 sample_viewer_visit) (None, initial_state ''w'' 1))) \<noteq>
      pageIndex (sample_two_page_props 2)"
    by code_simp
  note same = probe_outcome_per_page [of "(None, initial_state ''w'' 1)" ?evs
      "snd (pageRun (take 2 sample_viewer_visit) (None, initial_state ''w'' 1))"
      "sample_two_page_props 2"]
  have bound: "pageCommits ?evs (None, initial_state ''w'' 1) \<le> 1"
    using same start by blast
  have cleared: "\<not> audioCheckPerformed
       (fst (resetOnChange (sample_two_page_props 2)
          (snd (pageRun (take 2 sample_viewer_visit) (None, initial_state ''w'' 1)))))"
    using same moved by blast
  from start count result bound cleared show ?thesis by simp
qed


end
